theory Spec2Isabelle
  imports Main "HOL-Library.List_Lexorder" "HOL-Library.Char_ord"
begin

section \<open>Exceptions (exceptions.py)\<close>

text \<open>
  \<^verbatim>\<open>CardConvertError(value, return_code, stdout, stderr)\<close> and its eleven subclasses, one per
  pipeline stage. The subclasses add nothing to the base class, so an instance is the class
  tag together with the four constructor arguments \<^verbatim>\<open>value\<close>, \<^verbatim>\<open>return_code\<close>,
  \<^verbatim>\<open>stdout\<close> and \<^verbatim>\<open>stderr\<close>, in this order. The other constructors of \<open>exn\<close> are
  the built-in Python exceptions the modelled code can run into.
\<close>

datatype error_class =
    MakeMediumCopyError | MakeSmallCopyError | MakeJpgCopyError
  | MakeSmallIconError | MakeMediumIconError | MakeLargeIconError
  | MakeAnimatedPNGError | MakeAnimatedGIFError
  | MakeMP4Error | MakeWEBMError | MakeCompositeError

datatype exn =
    CardConvertError error_class string int string string
  | KeyError string
  | IndexError
  | TypeError
  | ValueError
  | OSError string
  | ReError string

section \<open>Library functions used by the code\<close>

subsection \<open>String formatting\<close>

text \<open>
  Python's \<^verbatim>\<open>template % args\<close>, for the two directives the code uses: \<^verbatim>\<open>%s\<close> consumes the
  next argument, \<^verbatim>\<open>%%\<close> is a literal percent sign. Too few arguments, or arguments left over
  at the end, raise \<^verbatim>\<open>TypeError\<close>; a percent sign at the end of the template raises
  \<^verbatim>\<open>ValueError\<close>. No template of the code has another directive; one is a \<^verbatim>\<open>ValueError\<close>
  here.
\<close>

fun format_str :: "string \<Rightarrow> string list \<Rightarrow> exn + string" where
  "format_str [] args = (if args = [] then Inr [] else Inl TypeError)"
| "format_str [c] args =
     (if c = CHR ''%'' then Inl ValueError
      else if args = [] then Inr [c] else Inl TypeError)"
| "format_str (c # d # rest) args =
     (if c = CHR ''%'' then
        (if d = CHR ''s'' then
           (case args of
              [] \<Rightarrow> Inl TypeError
            | a # as \<Rightarrow> (case format_str rest as of Inl e \<Rightarrow> Inl e | Inr r \<Rightarrow> Inr (a @ r)))
         else if d = CHR ''%'' then
           (case format_str rest args of Inl e \<Rightarrow> Inl e | Inr r \<Rightarrow> Inr (CHR ''%'' # r))
         else Inl ValueError)
      else (case format_str (d # rest) args of Inl e \<Rightarrow> Inl e | Inr r \<Rightarrow> Inr (c # r)))"

subsection \<open>Paths (posixpath)\<close>

text \<open>\<^verbatim>\<open>str.rfind\<close> for a single character: the last index holding it, or \<open>-1\<close>.\<close>

definition rfind :: "string \<Rightarrow> char \<Rightarrow> int" where
  "rfind p c =
     (if c \<in> set p
      then int (length p) - 1 - int (length (takeWhile (\<lambda>x. x \<noteq> c) (rev p)))
      else - 1)"

text \<open>\<^verbatim>\<open>os.path.basename\<close>: \<^verbatim>\<open>i = p.rfind('/') + 1; return p[i:]\<close>.\<close>

definition basename :: "string \<Rightarrow> string" where
  "basename p = drop (nat (rfind p CHR ''/'' + 1)) p"

text \<open>\<^verbatim>\<open>os.path.join\<close> of two components.\<close>

definition join :: "string \<Rightarrow> string \<Rightarrow> string" where
  "join a b =
     (if b \<noteq> [] \<and> hd b = CHR ''/'' then b
      else if a = [] \<or> last a = CHR ''/'' then a @ b
      else a @ ''/'' @ b)"

text \<open>
  \<^verbatim>\<open>os.path.splitext\<close>. The extension starts at the last dot, provided that dot comes after
  the last slash and is preceded, within the file name, by some character that is not a dot;
  the \<^verbatim>\<open>while\<close> loop of \<^verbatim>\<open>genericpath._splitext\<close> looks for that character.
\<close>

function splitext_loop :: "string \<Rightarrow> int \<Rightarrow> int \<Rightarrow> string \<times> string" where
  "splitext_loop p filenameIndex dotIndex =
     (if filenameIndex < dotIndex then
        (if p ! nat filenameIndex \<noteq> CHR ''.''
         then (take (nat dotIndex) p, drop (nat dotIndex) p)
         else splitext_loop p (filenameIndex + 1) dotIndex)
      else (p, []))"
  by pat_completeness auto
termination
  by (relation "measure (\<lambda>(p, filenameIndex, dotIndex). nat (dotIndex - filenameIndex))") auto

declare splitext_loop.simps [simp del]

definition splitext :: "string \<Rightarrow> string \<times> string" where
  "splitext p =
     (let sepIndex = rfind p CHR ''/''; dotIndex = rfind p CHR ''.''
      in if dotIndex > sepIndex then splitext_loop p (sepIndex + 1) dotIndex else (p, []))"

text \<open>\<^verbatim>\<open>re.match('^\.', file_)\<close>: the name starts with a dot.\<close>

definition hidden :: "string \<Rightarrow> bool" where
  "hidden file = (case file of [] \<Rightarrow> False | c # _ \<Rightarrow> c = CHR ''.'')"

subsection \<open>Regular expressions\<close>

text \<open>
  The frame pattern \<^verbatim>\<open>frame_re\<close> is a configuration value and the matching engine is
  Python's \<^verbatim>\<open>re\<close> module, so \<^verbatim>\<open>re.split(pattern, string)\<close> and
  \<^verbatim>\<open>re.sub(pattern, repl, string)\<close> are parameters of the model. Both raise for a pattern
  that does not compile.
\<close>

type_synonym re_split = "string \<Rightarrow> string \<Rightarrow> exn + string list"
type_synonym re_sub = "string \<Rightarrow> string \<Rightarrow> string \<Rightarrow> exn + string"

subsection \<open>Directory trees and os.walk\<close>

text \<open>
  A directory holds its sub-directories and its plain files, each in the order
  \<^verbatim>\<open>os.listdir\<close> reports them. \<^verbatim>\<open>os.walk\<close> is top-down: it yields the triple of a
  directory before it descends into the sub-directories, in listing order.
\<close>

datatype dirtree = Dir (subdirs: "(string \<times> dirtree) list") (files: "string list")

type_synonym walk_entry = "string \<times> string list \<times> string list"

fun os_walk :: "string \<Rightarrow> dirtree \<Rightarrow> walk_entry list"
  and os_walk_dirs :: "string \<Rightarrow> (string \<times> dirtree) list \<Rightarrow> walk_entry list" where
  "os_walk dir (Dir dirs nondirs) = (dir, map fst dirs, nondirs) # os_walk_dirs dir dirs"
| "os_walk_dirs dir [] = []"
| "os_walk_dirs dir ((name, t) # rest) = os_walk (join dir name) t @ os_walk_dirs dir rest"

text \<open>
  The file system maps a path to the tree found there when the path is a directory;
  \<^verbatim>\<open>os.path.isdir\<close> is false for every other path, a missing one included.
\<close>

type_synonym filesystem = "string \<rightharpoonup> dirtree"

definition isdir :: "filesystem \<Rightarrow> string \<Rightarrow> bool" where
  "isdir fs p = (fs p \<noteq> None)"

section \<open>Control flow\<close>

text \<open>A \<^verbatim>\<open>for\<close> loop whose body may raise: the first exception ends the loop.\<close>

fun for_each :: "('s \<Rightarrow> 'a \<Rightarrow> exn + 's) \<Rightarrow> 'a list \<Rightarrow> 's \<Rightarrow> exn + 's" where
  "for_each body [] s = Inr s"
| "for_each body (x # xs) s =
     (case body s x of Inl e \<Rightarrow> Inl e | Inr s' \<Rightarrow> for_each body xs s')"

section \<open>BasicCard.crawler (cards/base.py)\<close>

text \<open>
  The dictionary of one card, \<^verbatim>\<open>_info\<close>: the crawler creates it with the keys
  \<^verbatim>\<open>'static'\<close> and \<^verbatim>\<open>'animated'\<close>; \<^verbatim>\<open>_make_output_folders\<close> adds \<^verbatim>\<open>'output_paths'\<close> and the
  composite stage of a card class adds \<^verbatim>\<open>'ff_out'\<close>. A key that is absent is \<open>None\<close>.
\<close>

record info =
  static :: "string option"
  animated :: "string list option"
  output_paths :: "(string \<rightharpoonup> string) option"
  ff_out :: "string list option"

type_synonym cards = "string \<rightharpoonup> info"

text \<open>Lines 89--94: one file of a directory that is not the animation folder.\<close>

definition static_file :: "string \<Rightarrow> cards \<Rightarrow> string \<Rightarrow> exn + cards" where
  "static_file path cards file =
     (if \<not> hidden file then
        (let fullpath = join path file;
             header = fst (splitext file)
         in if header \<notin> dom cards
            then Inr (cards(header \<mapsto>
                   \<lparr>static = Some fullpath, animated = Some [],
                    output_paths = None, ff_out = None\<rparr>))
            else Inr cards)
      else Inr cards)"

text \<open>Lines 97--102: one file of the animation folder.\<close>

definition animated_file :: "re_split \<Rightarrow> string \<Rightarrow> string \<Rightarrow> cards \<Rightarrow> string \<Rightarrow> exn + cards" where
  "animated_file split frame_re path cards file =
     (if \<not> hidden file then
        (let fullpath = join path file;
             header = fst (splitext file)
         in case split frame_re header of
              Inl e \<Rightarrow> Inl e
            | Inr [] \<Rightarrow> Inl IndexError
            | Inr (header # _) \<Rightarrow>
                (case cards header of
                   None \<Rightarrow> Inr cards
                 | Some c \<Rightarrow>
                     (case animated c of
                        None \<Rightarrow> Inl (KeyError ''animated'')
                      | Some frames \<Rightarrow>
                          Inr (cards(header \<mapsto> c\<lparr>animated := Some (frames @ [fullpath])\<rparr>)))))
      else Inr cards)"

text \<open>
  Lines 83--102: the body of the loop over \<^verbatim>\<open>os.walk\<close>. The flag \<^verbatim>\<open>animated\<close> of the source
  is \<open>in_anim_folder\<close> here; exactly one of its two guarded loops runs. The argument
  \<^verbatim>\<open>locale_list\<close> of the crawler is never read and is left out.
\<close>

definition visit :: "re_split \<Rightarrow> string \<Rightarrow> string \<Rightarrow> cards \<Rightarrow> walk_entry \<Rightarrow> exn + cards" where
  "visit split frame_re anim_folder cards entry =
     (case entry of (path, subdir, nondirs) \<Rightarrow>
        (let in_anim_folder = (basename path = anim_folder)
         in if \<not> in_anim_folder
            then for_each (static_file path) (sort nondirs) cards
            else for_each (animated_file split frame_re path) (sort nondirs) cards))"

definition crawler :: "re_split \<Rightarrow> filesystem \<Rightarrow> string \<Rightarrow> string \<Rightarrow> string \<Rightarrow> exn + cards" where
  "crawler split fs target_dir frame_re anim_folder =
     (if isdir fs target_dir then
        (case fs target_dir of
           None \<Rightarrow> Inr Map.empty
         | Some t \<Rightarrow> for_each (visit split frame_re anim_folder) (os_walk target_dir t) Map.empty)
      else Inr Map.empty)"

section \<open>Running external tools\<close>

text \<open>
  The world a stage acts on: the regular files on disk, and the commands handed to the
  shell so far, oldest first. What a command does is not the program's business: the shell
  is a parameter that maps a command and the files on disk to the exit status, the two
  captured streams and the files left behind.
\<close>

record world =
  disk :: "string set"
  executed :: "string list"

type_synonym completed = "int \<times> string \<times> string"
type_synonym shell = "string \<Rightarrow> string set \<Rightarrow> completed \<times> string set"

text \<open>\<^verbatim>\<open>BasicCard.run_cmd\<close>: \<^verbatim>\<open>Popen(cmd, shell=True)\<close>, \<^verbatim>\<open>communicate()\<close>, \<^verbatim>\<open>returncode\<close>.\<close>

definition run_cmd :: "shell \<Rightarrow> string \<Rightarrow> world \<Rightarrow> completed \<times> world" where
  "run_cmd sh cmd w =
     (case sh cmd (disk w) of
        (result, disk') \<Rightarrow> (result, \<lparr>disk = disk', executed = executed w @ [cmd]\<rparr>))"

text \<open>\<^verbatim>\<open>os.remove\<close> raises \<^verbatim>\<open>OSError\<close> when there is no such file.\<close>

definition os_remove :: "string \<Rightarrow> world \<Rightarrow> (exn + unit) \<times> world" where
  "os_remove p w =
     (if p \<in> disk w then (Inr (), w\<lparr>disk := disk w - {p}\<rparr>) else (Inl (OSError p), w))"

section \<open>Pipeline stages (cards/base.py)\<close>

text \<open>
  Calls to the logger are left out: they change nothing a stage returns or runs. The
  identifiers \<^verbatim>\<open>input_\<close> and \<^verbatim>\<open>file_\<close> of the source are written without the underscore,
  and the methods without the leading one.
\<close>

definition get_input_output :: "info \<Rightarrow> string \<Rightarrow> exn + (string \<times> string)" where
  "get_input_output self output_type =
     (case static self of
        None \<Rightarrow> Inl (KeyError ''static'')
      | Some input \<Rightarrow>
          (let base = basename input
           in case output_paths self of
                None \<Rightarrow> Inl (KeyError ''output_paths'')
              | Some paths \<Rightarrow>
                  (case paths output_type of
                     None \<Rightarrow> Inl (KeyError output_type)
                   | Some output \<Rightarrow> Inr (input, join output base))))"

subsection \<open>Static variants\<close>

definition make_medium_copy_cmd :: "string \<Rightarrow> string \<Rightarrow> exn + string" where
  "make_medium_copy_cmd input output =
     format_str ''convert %s -filter lanczos -resize 200x303 -unsharp 1.5x1+0.7+0.02 %s''
       [input, output]"

definition make_medium_copy :: "shell \<Rightarrow> info \<Rightarrow> world \<Rightarrow> (exn + completed) \<times> world" where
  "make_medium_copy sh self w =
     (case get_input_output self ''medium'' of
        Inl e \<Rightarrow> (Inl e, w)
      | Inr (input, output) \<Rightarrow>
          (case make_medium_copy_cmd input output of
             Inl e \<Rightarrow> (Inl e, w)
           | Inr cmd \<Rightarrow>
               (case run_cmd sh cmd w of
                  ((return_code, stdout_value, stderr_value), w') \<Rightarrow>
                    if return_code \<noteq> 0
                    then (Inl (CardConvertError MakeMediumCopyError
                                 cmd return_code stdout_value stderr_value), w')
                    else (Inr (return_code, stdout_value, stderr_value), w'))))"

definition make_small_copy_cmd :: "string \<Rightarrow> string \<Rightarrow> exn + string" where
  "make_small_copy_cmd input output =
     format_str ''convert %s -filter lanczos -resize 123x186 -unsharp 1.5x1+0.7+0.02 %s''
       [input, output]"

definition make_small_copy :: "shell \<Rightarrow> info \<Rightarrow> world \<Rightarrow> (exn + completed) \<times> world" where
  "make_small_copy sh self w =
     (case get_input_output self ''small'' of
        Inl e \<Rightarrow> (Inl e, w)
      | Inr (input, output) \<Rightarrow>
          (case make_small_copy_cmd input output of
             Inl e \<Rightarrow> (Inl e, w)
           | Inr cmd \<Rightarrow>
               (case run_cmd sh cmd w of
                  ((return_code, stdout_value, stderr_value), w') \<Rightarrow>
                    if return_code \<noteq> 0
                    then (Inl (CardConvertError MakeSmallCopyError
                                 cmd return_code stdout_value stderr_value), w')
                    else (Inr (return_code, stdout_value, stderr_value), w'))))"

definition make_jpg_copy_cmd :: "string \<Rightarrow> string \<Rightarrow> exn + string" where
  \<open>make_jpg_copy_cmd input output =
     format_str ''convert %s -background "#242424" -layers flatten -filter lanczos -resize 200x303 +repage -gravity south -crop 200x302+0+0 +repage -unsharp 1.5x1+0.7+0.02 -quality 85%% %s''
       [input, output]\<close>

definition make_jpg_copy :: "shell \<Rightarrow> info \<Rightarrow> world \<Rightarrow> (exn + completed) \<times> world" where
  "make_jpg_copy sh self w =
     (case get_input_output self ''mediumj'' of
        Inl e \<Rightarrow> (Inl e, w)
      | Inr (input, output) \<Rightarrow>
          (case splitext output of
             (output, ext) \<Rightarrow>
               (case format_str ''%s.jpg'' [output] of
                  Inl e \<Rightarrow> (Inl e, w)
                | Inr output \<Rightarrow>
                    (case make_jpg_copy_cmd input output of
                       Inl e \<Rightarrow> (Inl e, w)
                     | Inr cmd \<Rightarrow>
                         (case run_cmd sh cmd w of
                            ((return_code, stdout_value, stderr_value), w') \<Rightarrow>
                              if return_code \<noteq> 0
                              then (Inl (CardConvertError MakeJpgCopyError
                                           cmd return_code stdout_value stderr_value), w')
                              else (Inr (return_code, stdout_value, stderr_value), w'))))))"

definition make_small_icons_cmd :: "string \<Rightarrow> string \<Rightarrow> exn + string" where
  "make_small_icons_cmd input output =
     format_str ''convert %s -filter lanczos -resize 11x16 -unsharp 1.5x1+0.7+0.02 %s''
       [input, output]"

definition make_small_icons :: "shell \<Rightarrow> info \<Rightarrow> world \<Rightarrow> (exn + completed) \<times> world" where
  "make_small_icons sh self w =
     (case get_input_output self ''icons/small'' of
        Inl e \<Rightarrow> (Inl e, w)
      | Inr (input, output) \<Rightarrow>
          (case make_small_icons_cmd input output of
             Inl e \<Rightarrow> (Inl e, w)
           | Inr cmd \<Rightarrow>
               (case run_cmd sh cmd w of
                  ((return_code, stdout_value, stderr_value), w') \<Rightarrow>
                    if return_code \<noteq> 0
                    then (Inl (CardConvertError MakeSmallIconError
                                 cmd return_code stdout_value stderr_value), w')
                    else (Inr (return_code, stdout_value, stderr_value), w'))))"

definition make_medium_icons_cmd :: "string \<Rightarrow> string \<Rightarrow> exn + string" where
  "make_medium_icons_cmd input output =
     format_str ''convert %s -filter lanczos -resize 30x44 -unsharp 1.5x1+0.7+0.02 %s''
       [input, output]"

definition make_medium_icons :: "shell \<Rightarrow> info \<Rightarrow> world \<Rightarrow> (exn + completed) \<times> world" where
  "make_medium_icons sh self w =
     (case get_input_output self ''icons/medium'' of
        Inl e \<Rightarrow> (Inl e, w)
      | Inr (input, output) \<Rightarrow>
          (case make_medium_icons_cmd input output of
             Inl e \<Rightarrow> (Inl e, w)
           | Inr cmd \<Rightarrow>
               (case run_cmd sh cmd w of
                  ((return_code, stdout_value, stderr_value), w') \<Rightarrow>
                    if return_code \<noteq> 0
                    then (Inl (CardConvertError MakeMediumIconError
                                 cmd return_code stdout_value stderr_value), w')
                    else (Inr (return_code, stdout_value, stderr_value), w'))))"

definition make_large_icons_cmd :: "string \<Rightarrow> string \<Rightarrow> exn + string" where
  "make_large_icons_cmd input output =
     format_str ''convert %s -filter lanczos -resize 40x60 -unsharp 1.5x1+0.7+0.02 %s''
       [input, output]"

definition make_large_icons :: "shell \<Rightarrow> info \<Rightarrow> world \<Rightarrow> (exn + completed) \<times> world" where
  "make_large_icons sh self w =
     (case get_input_output self ''icons/large'' of
        Inl e \<Rightarrow> (Inl e, w)
      | Inr (input, output) \<Rightarrow>
          (case make_large_icons_cmd input output of
             Inl e \<Rightarrow> (Inl e, w)
           | Inr cmd \<Rightarrow>
               (case run_cmd sh cmd w of
                  ((return_code, stdout_value, stderr_value), w') \<Rightarrow>
                    if return_code \<noteq> 0
                    then (Inl (CardConvertError MakeLargeIconError
                                 cmd return_code stdout_value stderr_value), w')
                    else (Inr (return_code, stdout_value, stderr_value), w'))))"

subsection \<open>Animated variants\<close>

text \<open>
  \<^verbatim>\<open>_make_animated_png_cmd\<close>: the output first, then every frame of the card in list order,
  each followed by a blank.
\<close>

definition make_animated_png_cmd :: "info \<Rightarrow> string \<Rightarrow> string \<Rightarrow> exn + string" where
  "make_animated_png_cmd self input output =
     (case format_str ''apngasm %s '' [output] of
        Inl e \<Rightarrow> Inl e
      | Inr cmd \<Rightarrow>
          (case animated self of
             None \<Rightarrow> Inl (KeyError ''animated'')
           | Some frames \<Rightarrow>
               for_each
                 (\<lambda>cmd file. case format_str ''%s '' [file] of
                                Inl e \<Rightarrow> Inl e
                              | Inr s \<Rightarrow> Inr (cmd @ s))
                 frames cmd))"

text \<open>A card without frames runs nothing and returns \<^verbatim>\<open>None\<close>.\<close>

definition make_animated_png ::
  "shell \<Rightarrow> info \<Rightarrow> world \<Rightarrow> (exn + completed option) \<times> world" where
  "make_animated_png sh self w =
     (case animated self of
        None \<Rightarrow> (Inl (KeyError ''animated''), w)
      | Some frames \<Rightarrow>
          if frames \<noteq> [] then
            (case get_input_output self ''animated'' of
               Inl e \<Rightarrow> (Inl e, w)
             | Inr (input, output) \<Rightarrow>
                 (case make_animated_png_cmd self input output of
                    Inl e \<Rightarrow> (Inl e, w)
                  | Inr cmd \<Rightarrow>
                      (case run_cmd sh cmd w of
                         ((return_code, stdout_value, stderr_value), w') \<Rightarrow>
                           if return_code \<noteq> 0
                           then (Inl (CardConvertError MakeAnimatedPNGError
                                        cmd return_code stdout_value stderr_value), w')
                           else (Inr (Some (return_code, stdout_value, stderr_value)), w'))))
          else (Inr None, w))"

definition make_animated_gif_cmd :: "string \<Rightarrow> string \<Rightarrow> exn + string" where
  "make_animated_gif_cmd input output = format_str ''apng2gif %s %s'' [input, output]"

text \<open>
  The input of the converter is the output path of the animated png; it is removed once
  the converter has exited with status zero.
\<close>

definition make_animated_gif :: "shell \<Rightarrow> info \<Rightarrow> world \<Rightarrow> (exn + completed) \<times> world" where
  "make_animated_gif sh self w =
     (case get_input_output self ''animated'' of
        Inl e \<Rightarrow> (Inl e, w)
      | Inr (input, output) \<Rightarrow>
          (let input = output
           in case splitext output of
                (output, ext) \<Rightarrow>
                  (case format_str ''%s.gif'' [output] of
                     Inl e \<Rightarrow> (Inl e, w)
                   | Inr output \<Rightarrow>
                       (case make_animated_gif_cmd input output of
                          Inl e \<Rightarrow> (Inl e, w)
                        | Inr cmd \<Rightarrow>
                            (case run_cmd sh cmd w of
                               ((return_code, stdout_value, stderr_value), w') \<Rightarrow>
                                 if return_code \<noteq> 0
                                 then (Inl (CardConvertError MakeAnimatedGIFError
                                              cmd return_code stdout_value stderr_value), w')
                                 else
                                   (case os_remove input w' of
                                      (Inl e, w'') \<Rightarrow> (Inl e, w'')
                                    | (Inr u, w'') \<Rightarrow>
                                        (Inr (return_code, stdout_value, stderr_value),
                                         w'')))))))"

text \<open>
  \<^verbatim>\<open>_web_format_prep\<close>. The frame pattern \<^verbatim>\<open>frame_re\<close> is read from the configuration of
  the card class, which is not part of the base class: it is an argument here.
\<close>

definition web_format_prep ::
  "re_sub \<Rightarrow> string \<Rightarrow> info \<Rightarrow> string \<Rightarrow> exn + (string \<times> string)" where
  "web_format_prep sub frame_re self fext =
     (case ff_out self of
        None \<Rightarrow> Inl (KeyError ''ff_out'')
      | Some [] \<Rightarrow> Inl IndexError
      | Some (input # _) \<Rightarrow>
          (case splitext input of
             (header, ext) \<Rightarrow>
               (case sub frame_re ''_%04d'' header of
                  Inl e \<Rightarrow> Inl e
                | Inr header \<Rightarrow>
                    (case format_str ''%s%s'' [header, ext] of
                       Inl e \<Rightarrow> Inl e
                     | Inr this_input \<Rightarrow>
                         (case get_input_output self ''animated'' of
                            Inl e \<Rightarrow> Inl e
                          | Inr (input, output) \<Rightarrow>
                              (case splitext output of
                                 (output, ext) \<Rightarrow>
                                   (case format_str ''%s.%s'' [output, fext] of
                                      Inl e \<Rightarrow> Inl e
                                    | Inr output \<Rightarrow> Inr (this_input, output))))))))"

definition make_mp4_cmd :: "string \<Rightarrow> string \<Rightarrow> exn + string" where
  "make_mp4_cmd input output =
     format_str ''ffmpeg -f image2 -framerate 11 -i %s -profile:v baseline -level 3.0 -pix_fmt yuv420p %s''
       [input, output]"

definition make_mp4 ::
  "re_sub \<Rightarrow> string \<Rightarrow> shell \<Rightarrow> info \<Rightarrow> world \<Rightarrow> (exn + completed) \<times> world" where
  "make_mp4 sub frame_re sh self w =
     (case web_format_prep sub frame_re self ''mp4'' of
        Inl e \<Rightarrow> (Inl e, w)
      | Inr (input, output) \<Rightarrow>
          (case make_mp4_cmd input output of
             Inl e \<Rightarrow> (Inl e, w)
           | Inr cmd \<Rightarrow>
               (case run_cmd sh cmd w of
                  ((return_code, stdout_value, stderr_value), w') \<Rightarrow>
                    if return_code \<noteq> 0
                    then (Inl (CardConvertError MakeMP4Error
                                 cmd return_code stdout_value stderr_value), w')
                    else (Inr (return_code, stdout_value, stderr_value), w'))))"

definition make_webm_cmd :: "string \<Rightarrow> string \<Rightarrow> exn + string" where
  "make_webm_cmd input output =
     format_str ''ffmpeg -f image2 -framerate 11 -i %s  %s'' [input, output]"

definition make_webm ::
  "re_sub \<Rightarrow> string \<Rightarrow> shell \<Rightarrow> info \<Rightarrow> world \<Rightarrow> (exn + completed) \<times> world" where
  "make_webm sub frame_re sh self w =
     (case web_format_prep sub frame_re self ''webm'' of
        Inl e \<Rightarrow> (Inl e, w)
      | Inr (input, output) \<Rightarrow>
          (case make_webm_cmd input output of
             Inl e \<Rightarrow> (Inl e, w)
           | Inr cmd \<Rightarrow>
               (case run_cmd sh cmd w of
                  ((return_code, stdout_value, stderr_value), w') \<Rightarrow>
                    if return_code \<noteq> 0
                    then (Inl (CardConvertError MakeWEBMError
                                 cmd return_code stdout_value stderr_value), w')
                    else (Inr (return_code, stdout_value, stderr_value), w'))))"

section \<open>The dispatcher (util.py)\<close>

text \<open>
  \<^verbatim>\<open>execute_pool\<close> submits \<^verbatim>\<open>_execute_pool(instance, output_path)\<close>, that is
  \<^verbatim>\<open>instance.process(output_path)\<close>, once per instance with \<^verbatim>\<open>pool.apply_async\<close> and then
  calls \<^verbatim>\<open>get()\<close> on the handles in submission order. The card classes that implement
  \<^verbatim>\<open>process\<close> are outside the modelled sources, so the method is a parameter: it returns the
  completion message of a card or the exception its pipeline raised.
\<close>

definition execute_pool_unit ::
  "('c \<Rightarrow> string \<Rightarrow> exn + 'a) \<Rightarrow> 'c \<Rightarrow> string \<Rightarrow> exn + 'a" where
  "execute_pool_unit process instance output_path = process instance output_path"

text \<open>
  A unit submitted with \<^verbatim>\<open>apply_async\<close> runs in a worker process, which catches whatever
  the call raises: the unit ends with the value or with the exception. The handle of the
  unit is its job number, counted from zero in submission order.
\<close>

definition apply_async :: "('c \<Rightarrow> string \<Rightarrow> exn + 'a) \<Rightarrow> 'c \<times> string \<Rightarrow> exn + 'a" where
  "apply_async func args = (case args of (instance, output_path) \<Rightarrow> func instance output_path)"

text \<open>
  The outcome of a unit reaches the parent process pickled. The code runs under Python 2
  (the \<^verbatim>\<open>print\<close> statement of \<^verbatim>\<open>base.py\<close>, \<^verbatim>\<open>file()\<close> in \<^verbatim>\<open>util.py\<close>), where an exception is
  pickled as its class and its \<^verbatim>\<open>args\<close>. \<^verbatim>\<open>CardConvertError.__init__\<close> takes four required
  arguments and does not call \<^verbatim>\<open>Exception.__init__\<close>, so its \<^verbatim>\<open>args\<close> stay empty and the
  parent cannot build the instance again: the call of the class without arguments raises
  \<^verbatim>\<open>TypeError\<close>. The built-in exceptions are built again from their arguments.
\<close>

definition rebuilt :: "exn \<Rightarrow> bool" where
  "rebuilt e = (case e of CardConvertError ecls cmd rc out err \<Rightarrow> False | _ \<Rightarrow> True)"

text \<open>
  The result-handler thread of the pool. It receives the outcomes of the units in the
  order in which the workers finish them, \<open>arrivals\<close>, a list of job numbers, and stores
  each under its job number. The \<^verbatim>\<open>TypeError\<close> of an outcome that cannot be built again is
  caught nowhere: the thread ends, and no later outcome is stored.
\<close>

fun handle_results ::
  "(exn + 'a) list \<Rightarrow> nat list \<Rightarrow> (nat \<rightharpoonup> exn + 'a) \<Rightarrow> (nat \<rightharpoonup> exn + 'a)" where
  "handle_results units [] cache = cache"
| "handle_results units (job # arrivals) cache =
     (if job < length units then
        (case units ! job of
           Inl e \<Rightarrow>
             if rebuilt e then handle_results units arrivals (cache(job \<mapsto> Inl e)) else cache
         | Inr v \<Rightarrow> handle_results units arrivals (cache(job \<mapsto> Inr v)))
      else handle_results units arrivals cache)"

text \<open>
  \<^verbatim>\<open>get()\<close> without a timeout waits until the outcome of its job is stored, then returns
  the value or raises the exception. For a job whose outcome is never stored it does not
  return: \<open>None\<close>.
\<close>

definition get :: "(nat \<rightharpoonup> exn + 'a) \<Rightarrow> nat \<Rightarrow> (exn + 'a) option" where
  "get cache job = cache job"

text \<open>The list comprehension \<^verbatim>\<open>[p.get() for p in results]\<close>.\<close>

fun get_all :: "(nat \<rightharpoonup> exn + 'a) \<Rightarrow> nat list \<Rightarrow> (exn + 'a list) option" where
  "get_all cache [] = Some (Inr [])"
| "get_all cache (p # ps) =
     (case get cache p of
        None \<Rightarrow> None
      | Some (Inl e) \<Rightarrow> Some (Inl e)
      | Some (Inr v) \<Rightarrow>
          (case get_all cache ps of
             None \<Rightarrow> None
           | Some (Inl e) \<Rightarrow> Some (Inl e)
           | Some (Inr vs) \<Rightarrow> Some (Inr (v # vs))))"

text \<open>
  \<^verbatim>\<open>execute_pool\<close> from line 104 on; \<open>instances\<close> is the list that
  \<^verbatim>\<open>get_card_instances\<close> returned at line 103. The number of worker processes bounds how
  many units run at a time; what it leaves open, the order in which the units finish, is
  the argument \<open>arrivals\<close>. The result is \<open>None\<close> when \<^verbatim>\<open>execute_pool\<close> does not return.
\<close>

definition execute_pool ::
  "('c \<Rightarrow> string \<Rightarrow> exn + 'a) \<Rightarrow> 'c list \<Rightarrow> string \<Rightarrow> nat list \<Rightarrow> (exn + 'a list) option" where
  "execute_pool process instances output_path arrivals =
     (let units = map (\<lambda>instance. apply_async (execute_pool_unit process)
                                    (instance, output_path)) instances;
          results = [0..<length units];
          cache = handle_results units arrivals Map.empty;
          output = get_all cache results
      in output)"

section \<open>Specification vocabulary\<close>

text \<open>
  The resize recipe of the specification: filter lanczos, unsharp parameters
  \<^verbatim>\<open>1.5x1+0.7+0.02\<close>, at a given geometry.
\<close>

definition resize_recipe :: "string \<Rightarrow> string \<Rightarrow> string \<Rightarrow> string" where
  "resize_recipe geometry input output =
     ''convert '' @ input @ '' -filter lanczos'' @ '' -resize '' @ geometry @
     '' -unsharp 1.5x1+0.7+0.02'' @ '' '' @ output"

text \<open>
  The command line of \<^verbatim>\<open>convert\<close>. The shell hands a command to the tool as its words, the
  parts between blanks; the tool reads the options from left to right.
\<close>

fun split_blanks :: "string \<Rightarrow> string \<Rightarrow> string list" where
  "split_blanks word [] = (if word = [] then [] else [word])"
| "split_blanks word (c # cs) =
     (if c = CHR '' ''
      then (if word = [] then split_blanks [] cs else word # split_blanks [] cs)
      else split_blanks (word @ [c]) cs)"

definition blank_separated :: "string \<Rightarrow> string list" where
  "blank_separated cmd = split_blanks [] cmd"

fun unwords :: "string list \<Rightarrow> string" where
  "unwords [] = []"
| "unwords [w] = w"
| "unwords (w # v # ws) = w @ '' '' @ unwords (v # ws)"

text \<open>
  A crop geometry \<^verbatim>\<open>WxH+X+Y\<close>: width, height and the two offsets, all written without a
  sign here.
\<close>

definition is_digit :: "char \<Rightarrow> bool" where
  "is_digit c = (c \<in> set ''0123456789'')"

definition number :: "string \<Rightarrow> nat" where
  "number ds = foldl (\<lambda>n c. 10 * n + (of_char c - 48)) 0 ds"

definition field :: "char \<Rightarrow> string \<Rightarrow> (nat \<times> string) option" where
  "field sep s =
     (case s of
        [] \<Rightarrow> None
      | c # r \<Rightarrow>
          if c = sep \<and> takeWhile is_digit r \<noteq> []
          then Some (number (takeWhile is_digit r), dropWhile is_digit r)
          else None)"

definition parse_geometry :: "string \<Rightarrow> (nat \<times> nat \<times> nat \<times> nat) option" where
  "parse_geometry g =
     (if takeWhile is_digit g = [] then None
      else
        (case field CHR ''x'' (dropWhile is_digit g) of
           None \<Rightarrow> None
         | Some (h, r) \<Rightarrow>
             (case field CHR ''+'' r of
                None \<Rightarrow> None
              | Some (x, r') \<Rightarrow>
                  (case field CHR ''+'' r' of
                     None \<Rightarrow> None
                   | Some (y, r'') \<Rightarrow>
                       if r'' = [] then Some (number (takeWhile is_digit g), h, x, y)
                       else None))))"

text \<open>
  Where ImageMagick places the window of \<^verbatim>\<open>-crop\<close>, vertically. The gravity in force, the
  last \<^verbatim>\<open>-gravity\<close> before the crop, decides from which edge the offset is measured: with a
  northern gravity (and with none) downwards from the top edge of the image, with a
  southern gravity upwards from the bottom edge, with the other three from the centred
  position. The rows of an image are numbered from zero at the top; the rows kept are
  those from the first number of the pair up to, not including, the second.
\<close>

datatype anchor = Top | Middle | Bottom

definition gravity_anchor :: "string \<Rightarrow> anchor option" where
  "gravity_anchor g =
     (if g \<in> set [''northwest'', ''north'', ''northeast''] then Some Top
      else if g \<in> set [''west'', ''center'', ''east''] then Some Middle
      else if g \<in> set [''southwest'', ''south'', ''southeast''] then Some Bottom
      else None)"

definition window_rows :: "anchor \<Rightarrow> nat \<Rightarrow> nat \<Rightarrow> nat \<Rightarrow> int \<times> int" where
  "window_rows a h y rows =
     (case a of
        Top \<Rightarrow> (int y, int y + int h)
      | Middle \<Rightarrow> ((int rows - int h) div 2 + int y, (int rows - int h) div 2 + int y + int h)
      | Bottom \<Rightarrow> (int rows - int h - int y, int rows - int y))"

text \<open>
  The rows that the first \<^verbatim>\<open>-crop\<close> among the option words keeps of an image with \<open>rows\<close>
  rows, under the gravity \<open>a\<close> in force at the start.
\<close>

fun crop_rows :: "anchor \<Rightarrow> string list \<Rightarrow> nat \<Rightarrow> (int \<times> int) option" where
  "crop_rows a [] rows = None"
| "crop_rows a [w] rows = None"
| "crop_rows a (w # v # ws) rows =
     (if w = ''-gravity'' then
        (case gravity_anchor v of None \<Rightarrow> None | Some a' \<Rightarrow> crop_rows a' ws rows)
      else if w = ''-crop'' then
        (case parse_geometry v of
           None \<Rightarrow> None
         | Some (width, h, x, y) \<Rightarrow> Some (window_rows a h y rows))
      else crop_rows a (v # ws) rows)"

text \<open>
  The options of the jpg copy, one after the other: flatten onto the background
  \<^verbatim>\<open>#242424\<close>, filter lanczos, resize to 200x303, crop to the window 200x302 under gravity
  south, unsharp \<^verbatim>\<open>1.5x1+0.7+0.02\<close>, JPEG quality 85 percent. The recipe is the command made
  of these words.
\<close>

definition jpg_options :: "string list" where
  \<open>jpg_options =
     [''-background'', ''"#242424"'', ''-layers'', ''flatten'',
      ''-filter'', ''lanczos'', ''-resize'', ''200x303'', ''+repage'',
      ''-gravity'', ''south'', ''-crop'', ''200x302+0+0'', ''+repage'',
      ''-unsharp'', ''1.5x1+0.7+0.02'', ''-quality'', ''85%'']\<close>

definition jpg_recipe :: "string \<Rightarrow> string \<Rightarrow> string" where
  "jpg_recipe input output = unwords (''convert'' # input # jpg_options @ [output])"

text \<open>The two web encodes: 11 frames per second, constrained and with default settings.\<close>

definition mp4_recipe :: "string \<Rightarrow> string \<Rightarrow> string" where
  "mp4_recipe input output =
     ''ffmpeg -f image2'' @ '' -framerate 11'' @ '' -i '' @ input @
     '' -profile:v baseline'' @ '' -level 3.0'' @ '' -pix_fmt yuv420p'' @ '' '' @ output"

definition webm_recipe :: "string \<Rightarrow> string \<Rightarrow> string" where
  "webm_recipe input output =
     ''ffmpeg -f image2'' @ '' -framerate 11'' @ '' -i '' @ input @ ''  '' @ output"

text \<open>
  The bundle key of an animation frame: the first segment of its file name without the
  extension, split on the frame pattern.
\<close>

definition frame_key :: "re_split \<Rightarrow> string \<Rightarrow> string \<Rightarrow> exn + string" where
  "frame_key split frame_re file =
     (case split frame_re (fst (splitext file)) of
        Inl e \<Rightarrow> Inl e
      | Inr [] \<Rightarrow> Inl IndexError
      | Inr (header # _) \<Rightarrow> Inr header)"

text \<open>The paths a bundle holds: its static file and its frames.\<close>

definition bundle_paths :: "info \<Rightarrow> string set" where
  "bundle_paths b =
     (case static b of None \<Rightarrow> {} | Some p \<Rightarrow> {p}) \<union>
     (case animated b of None \<Rightarrow> {} | Some frames \<Rightarrow> set frames)"

text \<open>A bundle as the crawler creates and fills it.\<close>

definition asset_bundle :: "string \<Rightarrow> string list \<Rightarrow> info" where
  "asset_bundle p frames =
     \<lparr>static = Some p, animated = Some frames, output_paths = None, ff_out = None\<rparr>"

text \<open>
  Where a path of a bundle with key \<open>k\<close> comes from. A static path is the full path of a
  file that is not hidden, has the base name \<open>k\<close> and sits in a walked directory other than
  the animation folder; a frame path is the full path of a file that is not hidden, has
  the frame key \<open>k\<close> and sits in a walked animation folder.
\<close>

definition static_source :: "string \<Rightarrow> walk_entry list \<Rightarrow> string \<Rightarrow> string \<Rightarrow> bool" where
  "static_source anim_folder walk k p =
     (\<exists>(path, subdir, nondirs) \<in> set walk. basename path \<noteq> anim_folder \<and>
        (\<exists>file \<in> set nondirs. \<not> hidden file \<and> fst (splitext file) = k \<and> p = join path file))"

definition frame_source ::
  "re_split \<Rightarrow> string \<Rightarrow> string \<Rightarrow> walk_entry list \<Rightarrow> string \<Rightarrow> string \<Rightarrow> bool" where
  "frame_source split frame_re anim_folder walk k p =
     (\<exists>(path, subdir, nondirs) \<in> set walk. basename path = anim_folder \<and>
        (\<exists>file \<in> set nondirs. \<not> hidden file \<and> frame_key split frame_re file = Inr k \<and>
           p = join path file))"

text \<open>Every bundle has both keys, and all its paths have a source in the walk.\<close>

definition sourced ::
  "re_split \<Rightarrow> string \<Rightarrow> string \<Rightarrow> walk_entry list \<Rightarrow> cards \<Rightarrow> bool" where
  "sourced split frame_re anim_folder walk cards =
     (\<forall>k b. cards k = Some b \<longrightarrow>
        (\<exists>p. static b = Some p \<and> static_source anim_folder walk k p) \<and>
        (\<exists>frames. animated b = Some frames \<and>
           (\<forall>p \<in> set frames. frame_source split frame_re anim_folder walk k p)))"

text \<open>
  A later state of the crawl keeps every bundle of an earlier one, with the same static
  path and with the earlier frames as a prefix of the later ones.
\<close>

definition grows :: "cards \<Rightarrow> cards \<Rightarrow> bool" where
  "grows cards cards' =
     (\<forall>k b. cards k = Some b \<longrightarrow>
        (\<exists>b'. cards' k = Some b' \<and> static b' = static b \<and>
           (\<forall>frames. animated b = Some frames \<longrightarrow>
              (\<exists>extra. animated b' = Some (frames @ extra)))))"

text \<open>No file name of the walk contains a slash, as in every directory listing.\<close>

definition plain_names :: "walk_entry list \<Rightarrow> bool" where
  "plain_names walk =
     (\<forall>(path, subdir, nondirs) \<in> set walk. \<forall>file \<in> set nondirs. CHR ''/'' \<notin> set file)"

text \<open>
  The frames of key \<open>k\<close> that one animation folder contributes: the full paths of its
  visible files with that key, in the sorted order of the listing. The frames of key \<open>k\<close>
  in a part of the walk: those of its animation folders, folder after folder in visiting
  order.
\<close>

definition folder_frames :: "re_split \<Rightarrow> string \<Rightarrow> string \<Rightarrow> string \<Rightarrow> string list \<Rightarrow> string list" where
  "folder_frames split frame_re k path nondirs =
     map (join path)
       (filter (\<lambda>file. \<not> hidden file \<and> frame_key split frame_re file = Inr k) (sort nondirs))"

definition walk_frames ::
  "re_split \<Rightarrow> string \<Rightarrow> string \<Rightarrow> string \<Rightarrow> walk_entry list \<Rightarrow> string list" where
  "walk_frames split frame_re anim_folder k entries =
     concat (map (\<lambda>(path, subdir, nondirs).
                    if basename path = anim_folder
                    then folder_frames split frame_re k path nondirs else [])
                 entries)"

text \<open>
  The input pattern of a web encode, derived from one frame file: the frame pattern is
  replaced by a numeric printf placeholder in the name without its extension.
\<close>

definition frame_pattern :: "re_sub \<Rightarrow> string \<Rightarrow> string \<Rightarrow> exn + string" where
  "frame_pattern sub frame_re frame =
     (case sub frame_re ''_%04d'' (fst (splitext frame)) of
        Inl e \<Rightarrow> Inl e
      | Inr header \<Rightarrow> Inr (header @ snd (splitext frame)))"

text \<open>
  A stage checks the exit status: it raises the error of its class, carrying the command,
  the exit code and the two captured streams, exactly when the exit code is not zero, and
  it returns the triple (wrapped by \<open>ret\<close>) exactly when the exit code is zero.
\<close>

definition checks_exit_status ::
  "error_class \<Rightarrow> string \<Rightarrow> completed \<Rightarrow> (completed \<Rightarrow> 'r) \<Rightarrow> exn + 'r \<Rightarrow> bool" where
  "checks_exit_status ecls cmd status ret result =
     (case status of (return_code, out, err) \<Rightarrow>
        (result = Inl (CardConvertError ecls cmd return_code out err)) = (return_code \<noteq> 0) \<and>
        (result = Inr (ret (return_code, out, err))) = (return_code = 0))"

text \<open>
  The last three statements of every stage, as one function for the proofs: run the
  command, raise on a non-zero status, return the triple otherwise.
\<close>

definition checked_run ::
  "error_class \<Rightarrow> (completed \<Rightarrow> 'r) \<Rightarrow> shell \<Rightarrow> string \<Rightarrow> world \<Rightarrow> (exn + 'r) \<times> world" where
  "checked_run ecls ret sh cmd w =
     (case run_cmd sh cmd w of
        ((return_code, stdout_value, stderr_value), w') \<Rightarrow>
          if return_code \<noteq> 0
          then (Inl (CardConvertError ecls cmd return_code stdout_value stderr_value), w')
          else (Inr (ret (return_code, stdout_value, stderr_value)), w'))"

section \<open>Test data\<close>

text \<open>A pattern that does not compile: every call of the regular-expression engine raises.\<close>

definition bad_split :: re_split where
  "bad_split pattern s = Inl (ReError pattern)"

text \<open>Three cards, numbered in submission order; the pipeline of the second one fails.\<close>

definition second_fails :: "nat \<Rightarrow> string \<Rightarrow> exn + string" where
  "second_fails instance output_path =
     (if instance = 2
      then Inl (CardConvertError MakeMediumCopyError ''convert a b'' 1 [] ''no such file'')
      else Inr ''Finished processing'')"

definition all_finish :: "nat \<Rightarrow> string \<Rightarrow> exn + string" where
  "all_finish instance output_path = Inr ''Finished processing''"

text \<open>
  The regular-expression engine at the pattern \<^verbatim>\<open>_[0-9]+$\<close>, a frame counter at the end of
  the name: \<^verbatim>\<open>re.split\<close> and \<^verbatim>\<open>re.sub\<close> for this one pattern.
\<close>

definition counter_prefix :: "string \<Rightarrow> string option" where
  "counter_prefix s =
     (let ds = takeWhile (\<lambda>c. c \<in> set ''0123456789'') (rev s);
          r = drop (length ds) (rev s)
      in if ds \<noteq> [] \<and> r \<noteq> [] \<and> hd r = CHR ''_'' then Some (rev (tl r)) else None)"

definition split_counter :: re_split where
  "split_counter pattern s =
     (case counter_prefix s of None \<Rightarrow> Inr [s] | Some p \<Rightarrow> Inr [p, []])"

definition sub_counter :: re_sub where
  "sub_counter pattern repl s =
     (case counter_prefix s of None \<Rightarrow> Inr s | Some p \<Rightarrow> Inr (p @ repl))"

text \<open>A card with two frames, its output folders made and its frames composited.\<close>

definition demo_card :: info where
  "demo_card =
     \<lparr>static = Some ''in/A.png'',
      animated = Some [''in/anim/A_0001.png'', ''in/anim/A_0002.png''],
      output_paths = Some (map_of
        [(''medium'', ''out/medium''), (''small'', ''out/small''),
         (''mediumj'', ''out/mediumj''), (''icons/small'', ''out/icons/small''),
         (''icons/medium'', ''out/icons/medium''), (''icons/large'', ''out/icons/large''),
         (''animated'', ''out/animated'')]),
      ff_out = Some [''tmp/ff_A_0001.png'', ''tmp/ff_A_0002.png'']\<rparr>"

text \<open>Two shells: every command succeeds, every command fails; neither touches the disk.\<close>

definition sh_ok :: shell where
  "sh_ok cmd fs = ((0, ''done'', []), fs)"

definition sh_fail :: shell where
  "sh_fail cmd fs = ((1, [], ''failed''), fs)"

definition demo_world :: world where
  "demo_world = \<lparr>disk = {''out/animated/A.png''}, executed = []\<rparr>"

text \<open>
  Directory trees for the crawler: the layout of the specification's example, with both
  listings out of order; a tree with hidden files; and two trees that hold the same static
  file and the same two frames and differ only in the order of the two sub-directories.
\<close>

definition example_fs :: filesystem where
  "example_fs =
     [''in'' \<mapsto> Dir [(''anim'', Dir [] [''A_0002.png'', ''A_0001.png''])] [''B.png'', ''A.png'']]"

definition hidden_tree :: dirtree where
  "hidden_tree = Dir [(''anim'', Dir [] [''A_0001.png'', ''.A_0002.png''])] [''.DS_Store'', ''A.png'']"

definition hidden_fs :: filesystem where
  "hidden_fs = [''in'' \<mapsto> hidden_tree]"

definition static_first_tree :: dirtree where
  "static_first_tree =
     Dir [(''enUS'', Dir [] [''A.png'']), (''anim'', Dir [] [''A_0002.png'', ''A_0001.png''])] []"

definition static_first_fs :: filesystem where
  "static_first_fs = [''in'' \<mapsto> static_first_tree]"

definition anim_first_fs :: filesystem where
  "anim_first_fs =
     [''in'' \<mapsto> Dir [(''anim'', Dir [] [''A_0002.png'', ''A_0001.png'']),
                    (''enUS'', Dir [] [''A.png''])] []]"

section \<open>The dispatcher\<close>

lemma handle_results_all_rebuilt:
  assumes "\<forall>u\<in>set units. \<forall>e. u = Inl e \<longrightarrow> rebuilt e"
  shows "handle_results units arrivals cache job =
         (if job \<in> set arrivals \<and> job < length units then Some (units ! job) else cache job)"
  using assms
proof (induction arrivals arbitrary: cache)
  case Nil
  then show ?case by simp
next
  case (Cons a arrivals)
  show ?case
  proof (cases "a < length units")
    case True
    then have "units ! a \<in> set units" by simp
    with Cons.prems have ok: "\<forall>e. units ! a = Inl e \<longrightarrow> rebuilt e" by blast
    show ?thesis
    proof (cases "units ! a")
      case (Inl e)
      with ok have "rebuilt e" by simp
      with True Inl Cons.IH [OF Cons.prems] show ?thesis by auto
    next
      case (Inr v)
      with True Cons.IH [OF Cons.prems] show ?thesis by auto
    qed
  next
    case False
    with Cons.IH [OF Cons.prems] show ?thesis by auto
  qed
qed

lemma handle_results_never_stored:
  assumes "job < length units" and "units ! job = Inl e" and "\<not> rebuilt e"
    and "cache job = None"
  shows "handle_results units arrivals cache job = None"
  using assms(4)
proof (induction arrivals arbitrary: cache)
  case Nil
  then show ?case by simp
next
  case (Cons a arrivals)
  show ?case
  proof (cases "a = job")
    case True
    with assms(1-3) Cons.prems show ?thesis by simp
  next
    case False
    then have "(cache(a \<mapsto> x)) job = None" for x
      using Cons.prems by simp
    with Cons.IH Cons.prems show ?thesis
      by (auto split: sum.splits)
  qed
qed

lemma get_all_values:
  "\<forall>job\<in>set jobs. cache job = Some (Inr (val job)) \<Longrightarrow>
   get_all cache jobs = Some (Inr (map val jobs))"
  by (induction jobs) (simp_all add: get_def)

lemma get_all_blocked:
  "job \<in> set jobs \<Longrightarrow> cache job = None \<Longrightarrow> get_all cache jobs \<noteq> Some (Inr out)"
proof (induction jobs arbitrary: out)
  case Nil
  then show ?case by simp
next
  case (Cons p ps)
  show ?case
  proof (cases "p = job")
    case True
    with Cons.prems(2) show ?thesis by (simp add: get_def)
  next
    case False
    with Cons.prems have "job \<in> set ps" by simp
    from Cons.IH [OF this Cons.prems(2)] show ?thesis
      by (auto simp: get_def split: option.splits sum.splits)
  qed
qed

lemma execute_pool_unfold:
  "execute_pool process instances output_path arrivals =
   get_all (handle_results (map (\<lambda>c. process c output_path) instances) arrivals Map.empty)
     [0..<length instances]"
  by (simp add: execute_pool_def apply_async_def execute_pool_unit_def)

text \<open>
  C1, as the specification states it, fails: with three cards of which the second raises a
  medium-copy error, \<open>execute_pool\<close> returns no result sequence, in whichever order the
  units finish. Nothing catches the error at the unit boundary, and the \<^verbatim>\<open>get()\<close> of the
  second handle does not return.
\<close>

theorem execute_pool_isolation_counterexample:
  "execute_pool second_fails [1, 2, 3] ''out'' [0, 1, 2] = None \<and>
   execute_pool second_fails [1, 2, 3] ''out'' [2, 1, 0] = None \<and>
   execute_pool second_fails [1, 2, 3] ''out'' [0, 2, 1] = None"
  by (simp add: execute_pool_unfold second_fails_def rebuilt_def get_def)

text \<open>
  C1, amended. When the pipeline of every submitted card finishes, \<open>execute_pool\<close> returns
  exactly one result per card, in submission order, in whichever order the units finish.
  When the pipeline of some card raises a stage error, that error is not caught at the unit
  boundary and is no entry of a result sequence: \<open>execute_pool\<close> returns no result sequence.
\<close>

theorem execute_pool_outcome:
  fixes process :: "'c \<Rightarrow> string \<Rightarrow> exn + 'a"
  shows
    "((\<forall>c\<in>set instances. \<not> isl (process c output_path)) \<and>
      set arrivals = {..<length instances} \<longrightarrow>
        (\<exists>out. execute_pool process instances output_path arrivals = Some (Inr out) \<and>
               length out = length instances \<and>
               (\<forall>i<length instances. process (instances ! i) output_path = Inr (out ! i)))) \<and>
     (i < length instances \<and>
      process (instances ! i) output_path = Inl (CardConvertError ecls cmd rc out err) \<longrightarrow>
        (\<forall>outs. execute_pool process instances output_path arrivals \<noteq> Some (Inr outs)))"
proof (intro conjI impI allI; (elim conjE)?)
  let ?units = "map (\<lambda>c. process c output_path) instances"
  assume ok: "\<forall>c\<in>set instances. \<not> isl (process c output_path)"
    and all: "set arrivals = {..<length instances}"
  let ?out = "map (\<lambda>c. projr (process c output_path)) instances"
  from ok have rebuilt: "\<forall>u\<in>set ?units. \<forall>e. u = Inl e \<longrightarrow> rebuilt e"
    by auto
  have stored: "\<forall>job\<in>set [0..<length instances].
      handle_results ?units arrivals Map.empty job = Some (Inr (projr (?units ! job)))"
  proof
    fix job
    assume "job \<in> set [0..<length instances]"
    then have job: "job < length instances" by simp
    with all have "job \<in> set arrivals" by simp
    with job handle_results_all_rebuilt [OF rebuilt, of arrivals Map.empty job]
    have "handle_results ?units arrivals Map.empty job = Some (?units ! job)"
      by simp
    moreover from ok job have "\<not> isl (?units ! job)" by simp
    ultimately show "handle_results ?units arrivals Map.empty job =
        Some (Inr (projr (?units ! job)))"
      by simp
  qed
  have "map (\<lambda>job. projr (?units ! job)) [0..<length instances] = ?out"
    by (rule nth_equalityI) simp_all
  with get_all_values [OF stored]
  have "execute_pool process instances output_path arrivals = Some (Inr ?out)"
    by (simp add: execute_pool_unfold)
  moreover have "length ?out = length instances" by simp
  moreover have "\<forall>i<length instances. process (instances ! i) output_path = Inr (?out ! i)"
    using ok by simp
  ultimately show "\<exists>out. execute_pool process instances output_path arrivals = Some (Inr out) \<and>
      length out = length instances \<and>
      (\<forall>i<length instances. process (instances ! i) output_path = Inr (out ! i))"
    by blast
next
  fix outs
  let ?units = "map (\<lambda>c. process c output_path) instances"
  assume i: "i < length instances"
    and fails: "process (instances ! i) output_path = Inl (CardConvertError ecls cmd rc out err)"
  have "handle_results ?units arrivals Map.empty i = None"
    by (rule handle_results_never_stored [where e = "CardConvertError ecls cmd rc out err"])
       (use i fails in \<open>simp_all add: rebuilt_def\<close>)
  moreover from i have "i \<in> set [0..<length instances]" by simp
  ultimately show "execute_pool process instances output_path arrivals \<noteq> Some (Inr outs)"
    unfolding execute_pool_unfold by (rule get_all_blocked [rotated])
qed

theorem execute_pool_outcome_witness:
  "\<not> isl (all_finish 1 ''out'') \<and> \<not> isl (all_finish 2 ''out'') \<and>
   \<not> isl (all_finish 3 ''out'') \<and> set [2, 0, 1] = {..<length [1, 2, 3 :: nat]} \<and>
   execute_pool all_finish [1, 2, 3] ''out'' [2, 0, 1] =
     Some (Inr [''Finished processing'', ''Finished processing'', ''Finished processing'']) \<and>
   1 < length [1, 2, 3 :: nat] \<and>
   second_fails ([1, 2, 3] ! 1) ''out'' =
     Inl (CardConvertError MakeMediumCopyError ''convert a b'' 1 [] ''no such file'') \<and>
   execute_pool second_fails [1, 2, 3] ''out'' [2, 0, 1] \<noteq>
     Some (Inr [''Finished processing'', ''Finished processing'', ''Finished processing''])"
proof -
  have a: "\<forall>c\<in>set [1, 2, 3::nat]. \<not> isl (all_finish c ''out'')"
    by (simp add: all_finish_def)
  have arr: "set [2, 0, 1] = {..<length [1, 2, 3 :: nat]}"
    by auto
  have len: "1 < length [1, 2, 3 :: nat]"
    by simp
  have c: "second_fails ([1, 2, 3] ! 1) ''out'' =
     Inl (CardConvertError MakeMediumCopyError ''convert a b'' 1 [] ''no such file'')"
    by (simp add: second_fails_def)
  note first = execute_pool_outcome [of "[1, 2, 3]" all_finish "''out''" "[2, 0, 1]",
      THEN conjunct1]
  from mp [OF first conjI [OF a arr]]
  obtain out where o: "execute_pool all_finish [1, 2, 3::nat] ''out'' [2, 0, 1] = Some (Inr out)"
    "length out = length [1, 2, 3::nat]"
    "\<forall>i<length [1, 2, 3::nat]. all_finish ([1, 2, 3::nat] ! i) ''out'' = Inr (out ! i)"
    by blast
  from o(3) have "\<forall>i<length out. out ! i = ''Finished processing''"
    using o(2) by (simp add: all_finish_def)
  with o(2) have "out = [''Finished processing'', ''Finished processing'', ''Finished processing'']"
    by (simp add: list_eq_iff_nth_eq less_Suc_eq numeral_3_eq_3)
  with o(1) have d: "execute_pool all_finish [1, 2, 3::nat] ''out'' [2, 0, 1] =
     Some (Inr [''Finished processing'', ''Finished processing'', ''Finished processing''])"
    by simp
  note second = execute_pool_outcome [where instances = "[1, 2, 3]" and process = second_fails
      and output_path = "''out''" and arrivals = "[2, 0, 1]" and i = 1, THEN conjunct2]
  from mp [OF second conjI [OF len c]]
  have e: "execute_pool second_fails [1, 2, 3] ''out'' [2, 0, 1] \<noteq>
     Some (Inr [''Finished processing'', ''Finished processing'', ''Finished processing''])"
    by blast
  from a arr len c d e show ?thesis by simp
qed

section \<open>Discovery\<close>

text \<open>
  C7. When \<open>root_dir\<close> is not a directory on disk, a missing path included, the crawler
  returns the empty mapping; it does not raise, whatever the frame pattern is.
\<close>

theorem crawler_missing_root:
  "\<not> isdir fs target_dir \<Longrightarrow> crawler split fs target_dir frame_re anim_folder = Inr Map.empty"
  by (simp add: crawler_def)

theorem crawler_missing_root_witness:
  "\<not> isdir Map.empty ''/no/such/dir'' \<and>
   crawler bad_split Map.empty ''/no/such/dir'' ''('' ''animation'' = Inr Map.empty"
  using crawler_missing_root [of Map.empty "''/no/such/dir''" bad_split "''(''" "''animation''"]
  by (simp add: isdir_def)

section \<open>Pipeline stages\<close>

subsection \<open>Command templates\<close>

lemma make_medium_copy_cmd_eq:
  "make_medium_copy_cmd input output = Inr (resize_recipe ''200x303'' input output)"
  by (simp add: make_medium_copy_cmd_def resize_recipe_def)

lemma make_small_copy_cmd_eq:
  "make_small_copy_cmd input output = Inr (resize_recipe ''123x186'' input output)"
  by (simp add: make_small_copy_cmd_def resize_recipe_def)

lemma make_small_icons_cmd_eq:
  "make_small_icons_cmd input output = Inr (resize_recipe ''11x16'' input output)"
  by (simp add: make_small_icons_cmd_def resize_recipe_def)

lemma make_medium_icons_cmd_eq:
  "make_medium_icons_cmd input output = Inr (resize_recipe ''30x44'' input output)"
  by (simp add: make_medium_icons_cmd_def resize_recipe_def)

lemma make_large_icons_cmd_eq:
  "make_large_icons_cmd input output = Inr (resize_recipe ''40x60'' input output)"
  by (simp add: make_large_icons_cmd_def resize_recipe_def)

lemma make_jpg_copy_cmd_eq:
  "make_jpg_copy_cmd input output = Inr (jpg_recipe input output)"
  by (simp add: make_jpg_copy_cmd_def jpg_recipe_def jpg_options_def)

lemma make_animated_gif_cmd_eq:
  "make_animated_gif_cmd input output = Inr (''apng2gif '' @ input @ '' '' @ output)"
  by (simp add: make_animated_gif_cmd_def)

lemma make_mp4_cmd_eq: "make_mp4_cmd input output = Inr (mp4_recipe input output)"
  by (simp add: make_mp4_cmd_def mp4_recipe_def)

lemma make_webm_cmd_eq: "make_webm_cmd input output = Inr (webm_recipe input output)"
  by (simp add: make_webm_cmd_def webm_recipe_def)

lemma append_frames:
  "for_each (\<lambda>cmd file. Inr (cmd @ file @ '' '')) frames cmd =
   Inr (cmd @ concat (map (\<lambda>file. file @ '' '') frames))"
  by (induction frames arbitrary: cmd) simp_all

lemma make_animated_png_cmd_eq:
  "animated self = Some frames \<Longrightarrow>
   make_animated_png_cmd self input output =
     Inr (''apngasm '' @ output @ '' '' @ concat (map (\<lambda>file. file @ '' '') frames))"
  by (simp add: make_animated_png_cmd_def append_frames)

subsection \<open>Each stage ends in a checked run\<close>

lemma checked_run_result:
  "sh cmd (disk w) = ((return_code, out, err), disk') \<Longrightarrow>
   checked_run ecls ret sh cmd w =
     (if return_code \<noteq> 0 then Inl (CardConvertError ecls cmd return_code out err)
      else Inr (ret (return_code, out, err)),
      \<lparr>disk = disk', executed = executed w @ [cmd]\<rparr>)"
  by (simp add: checked_run_def run_cmd_def)

lemma checked_run_checks:
  "checks_exit_status ecls cmd (fst (sh cmd (disk w))) ret (fst (checked_run ecls ret sh cmd w))"
  by (cases "sh cmd (disk w)")
     (auto simp: checked_run_def run_cmd_def checks_exit_status_def split: if_splits)

lemma checked_run_executed:
  "executed (snd (checked_run ecls ret sh cmd w)) = executed w @ [cmd]"
  by (cases "sh cmd (disk w)") (auto simp: checked_run_def run_cmd_def)

lemma make_medium_copy_run:
  "get_input_output self ''medium'' = Inr (input, output) \<Longrightarrow>
   make_medium_copy_cmd input output = Inr cmd \<Longrightarrow>
   make_medium_copy sh self w = checked_run MakeMediumCopyError (\<lambda>r. r) sh cmd w"
  by (simp add: make_medium_copy_def checked_run_def)

lemma make_small_copy_run:
  "get_input_output self ''small'' = Inr (input, output) \<Longrightarrow>
   make_small_copy_cmd input output = Inr cmd \<Longrightarrow>
   make_small_copy sh self w = checked_run MakeSmallCopyError (\<lambda>r. r) sh cmd w"
  by (simp add: make_small_copy_def checked_run_def)

lemma make_jpg_copy_run:
  "get_input_output self ''mediumj'' = Inr (input, output) \<Longrightarrow>
   make_jpg_copy_cmd input (fst (splitext output) @ ''.jpg'') = Inr cmd \<Longrightarrow>
   make_jpg_copy sh self w = checked_run MakeJpgCopyError (\<lambda>r. r) sh cmd w"
  by (simp add: make_jpg_copy_def checked_run_def case_prod_beta)

lemma make_small_icons_run:
  "get_input_output self ''icons/small'' = Inr (input, output) \<Longrightarrow>
   make_small_icons_cmd input output = Inr cmd \<Longrightarrow>
   make_small_icons sh self w = checked_run MakeSmallIconError (\<lambda>r. r) sh cmd w"
  by (simp add: make_small_icons_def checked_run_def)

lemma make_medium_icons_run:
  "get_input_output self ''icons/medium'' = Inr (input, output) \<Longrightarrow>
   make_medium_icons_cmd input output = Inr cmd \<Longrightarrow>
   make_medium_icons sh self w = checked_run MakeMediumIconError (\<lambda>r. r) sh cmd w"
  by (simp add: make_medium_icons_def checked_run_def)

lemma make_large_icons_run:
  "get_input_output self ''icons/large'' = Inr (input, output) \<Longrightarrow>
   make_large_icons_cmd input output = Inr cmd \<Longrightarrow>
   make_large_icons sh self w = checked_run MakeLargeIconError (\<lambda>r. r) sh cmd w"
  by (simp add: make_large_icons_def checked_run_def)

lemma make_animated_png_run:
  "animated self = Some frames \<Longrightarrow> frames \<noteq> [] \<Longrightarrow>
   get_input_output self ''animated'' = Inr (input, output) \<Longrightarrow>
   make_animated_png_cmd self input output = Inr cmd \<Longrightarrow>
   make_animated_png sh self w = checked_run MakeAnimatedPNGError Some sh cmd w"
  by (simp add: make_animated_png_def checked_run_def)

lemma make_mp4_run:
  "web_format_prep sub frame_re self ''mp4'' = Inr (input, output) \<Longrightarrow>
   make_mp4_cmd input output = Inr cmd \<Longrightarrow>
   make_mp4 sub frame_re sh self w = checked_run MakeMP4Error (\<lambda>r. r) sh cmd w"
  by (simp add: make_mp4_def checked_run_def)

lemma make_webm_run:
  "web_format_prep sub frame_re self ''webm'' = Inr (input, output) \<Longrightarrow>
   make_webm_cmd input output = Inr cmd \<Longrightarrow>
   make_webm sub frame_re sh self w = checked_run MakeWEBMError (\<lambda>r. r) sh cmd w"
  by (simp add: make_webm_def checked_run_def)

text \<open>The animated gif stage goes on after the checked run: it removes its input.\<close>

lemma make_animated_gif_run:
  assumes "get_input_output self ''animated'' = Inr (input, container)"
    and "make_animated_gif_cmd container (fst (splitext container) @ ''.gif'') = Inr cmd"
    and "sh cmd (disk w) = ((return_code, out, err), disk')"
  shows "make_animated_gif sh self w =
     (if return_code \<noteq> 0
      then (Inl (CardConvertError MakeAnimatedGIFError cmd return_code out err),
            \<lparr>disk = disk', executed = executed w @ [cmd]\<rparr>)
      else if container \<in> disk'
      then (Inr (return_code, out, err),
            \<lparr>disk = disk' - {container}, executed = executed w @ [cmd]\<rparr>)
      else (Inl (OSError container), \<lparr>disk = disk', executed = executed w @ [cmd]\<rparr>))"
  using assms
  by (simp add: make_animated_gif_def run_cmd_def os_remove_def case_prod_beta Let_def)

subsection \<open>Facts about the test card\<close>

lemmas path_eval =
  get_input_output_def basename_def rfind_def join_def splitext_def splitext_loop.simps Let_def

lemma demo_medium:
  "get_input_output demo_card ''medium'' = Inr (''in/A.png'', ''out/medium/A.png'')"
  by (simp add: path_eval demo_card_def)

lemma demo_small:
  "get_input_output demo_card ''small'' = Inr (''in/A.png'', ''out/small/A.png'')"
  by (simp add: path_eval demo_card_def)

lemma demo_mediumj:
  "get_input_output demo_card ''mediumj'' = Inr (''in/A.png'', ''out/mediumj/A.png'')"
  by (simp add: path_eval demo_card_def)

lemma demo_icons_small:
  "get_input_output demo_card ''icons/small'' = Inr (''in/A.png'', ''out/icons/small/A.png'')"
  by (simp add: path_eval demo_card_def)

lemma demo_icons_medium:
  "get_input_output demo_card ''icons/medium'' = Inr (''in/A.png'', ''out/icons/medium/A.png'')"
  by (simp add: path_eval demo_card_def)

lemma demo_icons_large:
  "get_input_output demo_card ''icons/large'' = Inr (''in/A.png'', ''out/icons/large/A.png'')"
  by (simp add: path_eval demo_card_def)

lemma demo_animated:
  "get_input_output demo_card ''animated'' = Inr (''in/A.png'', ''out/animated/A.png'')"
  by (simp add: path_eval demo_card_def)

lemma demo_jpg_output: "fst (splitext ''out/mediumj/A.png'') @ ''.jpg'' = ''out/mediumj/A.jpg''"
  by (simp add: path_eval)

lemma demo_gif_output: "fst (splitext ''out/animated/A.png'') @ ''.gif'' = ''out/animated/A.gif''"
  by (simp add: path_eval)

lemma demo_frames:
  "animated demo_card = Some [''in/anim/A_0001.png'', ''in/anim/A_0002.png'']"
  by (simp add: demo_card_def)

lemma demo_ff_out: "ff_out demo_card = Some (''tmp/ff_A_0001.png'' # [''tmp/ff_A_0002.png''])"
  by (simp add: demo_card_def)

lemma demo_sub:
  "sub_counter ''_[0-9]+$'' ''_%04d'' (fst (splitext ''tmp/ff_A_0001.png'')) = Inr ''tmp/ff_A_%04d''"
  by (simp add: path_eval sub_counter_def counter_prefix_def)

lemma demo_mp4:
  "web_format_prep sub_counter ''_[0-9]+$'' demo_card ''mp4'' =
   Inr (''tmp/ff_A_%04d.png'', ''out/animated/A.mp4'')"
  by (simp add: web_format_prep_def path_eval demo_card_def sub_counter_def counter_prefix_def)

lemma demo_webm:
  "web_format_prep sub_counter ''_[0-9]+$'' demo_card ''webm'' =
   Inr (''tmp/ff_A_%04d.png'', ''out/animated/A.webm'')"
  by (simp add: web_format_prep_def path_eval demo_card_def sub_counter_def counter_prefix_def)

lemma sh_fail_status: "fst (sh_fail cmd fs) = (1, [], ''failed'')"
  by (simp add: sh_fail_def)

lemma sh_ok_status: "fst (sh_ok cmd fs) = (0, ''done'', [])"
  by (simp add: sh_ok_def)

lemma checks_failed:
  "checks_exit_status ecls cmd (1, out, err) ret result \<Longrightarrow>
   result = Inl (CardConvertError ecls cmd 1 out err)"
  by (simp add: checks_exit_status_def)

lemma checks_succeeded:
  "checks_exit_status ecls cmd (0, out, err) ret result \<Longrightarrow> result = Inr (ret (0, out, err))"
  by (simp add: checks_exit_status_def)

subsection \<open>Exit status\<close>

text \<open>
  C2. Each of the ten stages that invoke an external tool, once its paths are resolved and
  its command \<open>cmd\<close> is built, hands exactly \<open>cmd\<close> to the shell, raises the error of its
  own class with \<open>cmd\<close>, the exit code and both captured streams exactly when the exit code
  is not zero, and returns the triple exactly when it is zero. The animated png stage
  invokes the tool only for a card that has frames. The animated gif stage removes its input
  before it returns, so its normal return needs that file to be there once the converter
  has exited with zero.
\<close>

theorem stages_check_exit_status:
  "(get_input_output self ''medium'' = Inr (input, output) \<and>
    make_medium_copy_cmd input output = Inr cmd \<longrightarrow>
      checks_exit_status MakeMediumCopyError cmd (fst (sh cmd (disk w))) (\<lambda>r. r)
        (fst (make_medium_copy sh self w)) \<and>
      executed (snd (make_medium_copy sh self w)) = executed w @ [cmd]) \<and>
   (get_input_output self ''small'' = Inr (input, output) \<and>
    make_small_copy_cmd input output = Inr cmd \<longrightarrow>
      checks_exit_status MakeSmallCopyError cmd (fst (sh cmd (disk w))) (\<lambda>r. r)
        (fst (make_small_copy sh self w)) \<and>
      executed (snd (make_small_copy sh self w)) = executed w @ [cmd]) \<and>
   (get_input_output self ''mediumj'' = Inr (input, output) \<and>
    make_jpg_copy_cmd input (fst (splitext output) @ ''.jpg'') = Inr cmd \<longrightarrow>
      checks_exit_status MakeJpgCopyError cmd (fst (sh cmd (disk w))) (\<lambda>r. r)
        (fst (make_jpg_copy sh self w)) \<and>
      executed (snd (make_jpg_copy sh self w)) = executed w @ [cmd]) \<and>
   (get_input_output self ''icons/small'' = Inr (input, output) \<and>
    make_small_icons_cmd input output = Inr cmd \<longrightarrow>
      checks_exit_status MakeSmallIconError cmd (fst (sh cmd (disk w))) (\<lambda>r. r)
        (fst (make_small_icons sh self w)) \<and>
      executed (snd (make_small_icons sh self w)) = executed w @ [cmd]) \<and>
   (get_input_output self ''icons/medium'' = Inr (input, output) \<and>
    make_medium_icons_cmd input output = Inr cmd \<longrightarrow>
      checks_exit_status MakeMediumIconError cmd (fst (sh cmd (disk w))) (\<lambda>r. r)
        (fst (make_medium_icons sh self w)) \<and>
      executed (snd (make_medium_icons sh self w)) = executed w @ [cmd]) \<and>
   (get_input_output self ''icons/large'' = Inr (input, output) \<and>
    make_large_icons_cmd input output = Inr cmd \<longrightarrow>
      checks_exit_status MakeLargeIconError cmd (fst (sh cmd (disk w))) (\<lambda>r. r)
        (fst (make_large_icons sh self w)) \<and>
      executed (snd (make_large_icons sh self w)) = executed w @ [cmd]) \<and>
   (animated self = Some frames \<and> frames \<noteq> [] \<and>
    get_input_output self ''animated'' = Inr (input, output) \<and>
    make_animated_png_cmd self input output = Inr cmd \<longrightarrow>
      checks_exit_status MakeAnimatedPNGError cmd (fst (sh cmd (disk w))) Some
        (fst (make_animated_png sh self w)) \<and>
      executed (snd (make_animated_png sh self w)) = executed w @ [cmd]) \<and>
   (get_input_output self ''animated'' = Inr (input, output) \<and>
    make_animated_gif_cmd output (fst (splitext output) @ ''.gif'') = Inr cmd \<and>
    (fst (fst (sh cmd (disk w))) = 0 \<longrightarrow> output \<in> snd (sh cmd (disk w))) \<longrightarrow>
      checks_exit_status MakeAnimatedGIFError cmd (fst (sh cmd (disk w))) (\<lambda>r. r)
        (fst (make_animated_gif sh self w)) \<and>
      executed (snd (make_animated_gif sh self w)) = executed w @ [cmd]) \<and>
   (web_format_prep sub frame_re self ''mp4'' = Inr (input, output) \<and>
    make_mp4_cmd input output = Inr cmd \<longrightarrow>
      checks_exit_status MakeMP4Error cmd (fst (sh cmd (disk w))) (\<lambda>r. r)
        (fst (make_mp4 sub frame_re sh self w)) \<and>
      executed (snd (make_mp4 sub frame_re sh self w)) = executed w @ [cmd]) \<and>
   (web_format_prep sub frame_re self ''webm'' = Inr (input, output) \<and>
    make_webm_cmd input output = Inr cmd \<longrightarrow>
      checks_exit_status MakeWEBMError cmd (fst (sh cmd (disk w))) (\<lambda>r. r)
        (fst (make_webm sub frame_re sh self w)) \<and>
      executed (snd (make_webm sub frame_re sh self w)) = executed w @ [cmd])"
proof -
  have gif: "checks_exit_status MakeAnimatedGIFError cmd (fst (sh cmd (disk w))) (\<lambda>r. r)
        (fst (make_animated_gif sh self w)) \<and>
      executed (snd (make_animated_gif sh self w)) = executed w @ [cmd]"
    if io: "get_input_output self ''animated'' = Inr (input, output)"
      and c: "make_animated_gif_cmd output (fst (splitext output) @ ''.gif'') = Inr cmd"
      and there: "fst (fst (sh cmd (disk w))) = 0 \<longrightarrow> output \<in> snd (sh cmd (disk w))"
  proof -
    obtain return_code out err disk' where s: "sh cmd (disk w) = ((return_code, out, err), disk')"
      by (metis prod.exhaust)
    note run = make_animated_gif_run [where sh = sh and w = w, OF io c s]
    from there s show ?thesis
      by (simp add: run checks_exit_status_def)
  qed
  show ?thesis
    by (intro conjI impI; (elim conjE)?)
       (simp_all add: make_medium_copy_run make_small_copy_run make_jpg_copy_run
          make_small_icons_run make_medium_icons_run make_large_icons_run
          make_animated_png_run make_mp4_run make_webm_run gif
          checked_run_checks checked_run_executed)
qed


theorem stages_check_exit_status_witness:
  "fst (make_medium_copy sh_fail demo_card demo_world) =
     Inl (CardConvertError MakeMediumCopyError
            (resize_recipe ''200x303'' ''in/A.png'' ''out/medium/A.png'') 1 [] ''failed'') \<and>
   fst (make_small_copy sh_fail demo_card demo_world) =
     Inl (CardConvertError MakeSmallCopyError
            (resize_recipe ''123x186'' ''in/A.png'' ''out/small/A.png'') 1 [] ''failed'') \<and>
   fst (make_jpg_copy sh_fail demo_card demo_world) =
     Inl (CardConvertError MakeJpgCopyError
            (jpg_recipe ''in/A.png'' ''out/mediumj/A.jpg'') 1 [] ''failed'') \<and>
   fst (make_small_icons sh_fail demo_card demo_world) =
     Inl (CardConvertError MakeSmallIconError
            (resize_recipe ''11x16'' ''in/A.png'' ''out/icons/small/A.png'') 1 [] ''failed'') \<and>
   fst (make_medium_icons sh_fail demo_card demo_world) =
     Inl (CardConvertError MakeMediumIconError
            (resize_recipe ''30x44'' ''in/A.png'' ''out/icons/medium/A.png'') 1 [] ''failed'') \<and>
   fst (make_large_icons sh_fail demo_card demo_world) =
     Inl (CardConvertError MakeLargeIconError
            (resize_recipe ''40x60'' ''in/A.png'' ''out/icons/large/A.png'') 1 [] ''failed'') \<and>
   fst (make_animated_png sh_fail demo_card demo_world) =
     Inl (CardConvertError MakeAnimatedPNGError
            ''apngasm out/animated/A.png in/anim/A_0001.png in/anim/A_0002.png '' 1 []
            ''failed'') \<and>
   fst (make_animated_gif sh_ok demo_card demo_world) = Inr (0, ''done'', []) \<and>
   fst (make_mp4 sub_counter ''_[0-9]+$'' sh_fail demo_card demo_world) =
     Inl (CardConvertError MakeMP4Error
            (mp4_recipe ''tmp/ff_A_%04d.png'' ''out/animated/A.mp4'') 1 [] ''failed'') \<and>
   fst (make_webm sub_counter ''_[0-9]+$'' sh_ok demo_card demo_world) = Inr (0, ''done'', [])"
proof -
  note tf = stages_check_exit_status [where self = demo_card and w = demo_world and sh = sh_fail]
  note tk = stages_check_exit_status [where self = demo_card and w = demo_world and sh = sh_ok]
  have medium: "fst (make_medium_copy sh_fail demo_card demo_world) =
     Inl (CardConvertError MakeMediumCopyError
            (resize_recipe ''200x303'' ''in/A.png'' ''out/medium/A.png'') 1 [] ''failed'')"
    using tf [THEN conjunct1, THEN mp,
             OF conjI [OF demo_medium make_medium_copy_cmd_eq], THEN conjunct1]
    by (auto simp: sh_fail_status dest: checks_failed)
  have small: "fst (make_small_copy sh_fail demo_card demo_world) =
     Inl (CardConvertError MakeSmallCopyError
            (resize_recipe ''123x186'' ''in/A.png'' ''out/small/A.png'') 1 [] ''failed'')"
    using tf [THEN conjunct2, THEN conjunct1, THEN mp,
              OF conjI [OF demo_small make_small_copy_cmd_eq], THEN conjunct1]
    by (auto simp: sh_fail_status dest: checks_failed)
  have jpg: "fst (make_jpg_copy sh_fail demo_card demo_world) =
     Inl (CardConvertError MakeJpgCopyError
            (jpg_recipe ''in/A.png'' ''out/mediumj/A.jpg'') 1 [] ''failed'')"
    using tf [THEN conjunct2, THEN conjunct2, THEN conjunct1, THEN mp,
              OF conjI [OF demo_mediumj make_jpg_copy_cmd_eq], THEN conjunct1]
    by (auto simp: sh_fail_status demo_jpg_output dest: checks_failed)
  have icons_small: "fst (make_small_icons sh_fail demo_card demo_world) =
     Inl (CardConvertError MakeSmallIconError
            (resize_recipe ''11x16'' ''in/A.png'' ''out/icons/small/A.png'') 1 [] ''failed'')"
    using tf [THEN conjunct2, THEN conjunct2, THEN conjunct2, THEN conjunct1, THEN mp,
              OF conjI [OF demo_icons_small make_small_icons_cmd_eq], THEN conjunct1]
    by (auto simp: sh_fail_status dest: checks_failed)
  have icons_medium: "fst (make_medium_icons sh_fail demo_card demo_world) =
     Inl (CardConvertError MakeMediumIconError
            (resize_recipe ''30x44'' ''in/A.png'' ''out/icons/medium/A.png'') 1 [] ''failed'')"
    using tf [THEN conjunct2, THEN conjunct2, THEN conjunct2, THEN conjunct2, THEN conjunct1, THEN mp,
              OF conjI [OF demo_icons_medium make_medium_icons_cmd_eq], THEN conjunct1]
    by (auto simp: sh_fail_status dest: checks_failed)
  have icons_large: "fst (make_large_icons sh_fail demo_card demo_world) =
     Inl (CardConvertError MakeLargeIconError
            (resize_recipe ''40x60'' ''in/A.png'' ''out/icons/large/A.png'') 1 [] ''failed'')"
    using tf [THEN conjunct2, THEN conjunct2, THEN conjunct2, THEN conjunct2, THEN conjunct2, THEN conjunct1, THEN mp,
              OF conjI [OF demo_icons_large make_large_icons_cmd_eq], THEN conjunct1]
    by (auto simp: sh_fail_status dest: checks_failed)
  have png_cmd: "make_animated_png_cmd demo_card ''in/A.png'' ''out/animated/A.png'' =
      Inr ''apngasm out/animated/A.png in/anim/A_0001.png in/anim/A_0002.png ''"
    by (simp add: make_animated_png_cmd_eq [OF demo_frames])
  have png: "fst (make_animated_png sh_fail demo_card demo_world) =
     Inl (CardConvertError MakeAnimatedPNGError
            ''apngasm out/animated/A.png in/anim/A_0001.png in/anim/A_0002.png '' 1 []
            ''failed'')"
    using stages_check_exit_status
            [where self = demo_card and w = demo_world and sh = sh_fail
               and frames = "[''in/anim/A_0001.png'', ''in/anim/A_0002.png'']"
               and ?input = "''in/A.png''" and ?output = "''out/animated/A.png''"
               and cmd = "''apngasm out/animated/A.png in/anim/A_0001.png in/anim/A_0002.png ''",
             THEN conjunct2, THEN conjunct2, THEN conjunct2, THEN conjunct2, THEN conjunct2, THEN conjunct2, THEN conjunct1]
      demo_frames demo_animated png_cmd
    by (auto simp: sh_fail_status dest: checks_failed)
  have gif: "fst (make_animated_gif sh_ok demo_card demo_world) = Inr (0, ''done'', [])"
    using stages_check_exit_status
            [where self = demo_card and w = demo_world and sh = sh_ok
               and ?input = "''in/A.png''" and ?output = "''out/animated/A.png''"
               and cmd = "''apng2gif out/animated/A.png out/animated/A.gif''",
             THEN conjunct2, THEN conjunct2, THEN conjunct2, THEN conjunct2, THEN conjunct2, THEN conjunct2, THEN conjunct2, THEN conjunct1]
      demo_animated
    by (auto simp: sh_ok_status demo_gif_output make_animated_gif_cmd_eq
          sh_ok_def demo_world_def dest: checks_succeeded)
  have mp4: "fst (make_mp4 sub_counter ''_[0-9]+$'' sh_fail demo_card demo_world) =
     Inl (CardConvertError MakeMP4Error
            (mp4_recipe ''tmp/ff_A_%04d.png'' ''out/animated/A.mp4'') 1 [] ''failed'')"
    using tf [THEN conjunct2, THEN conjunct2, THEN conjunct2, THEN conjunct2, THEN conjunct2, THEN conjunct2, THEN conjunct2, THEN conjunct2, THEN conjunct1, THEN mp,
              OF conjI [OF demo_mp4 make_mp4_cmd_eq], THEN conjunct1]
    by (auto simp: sh_fail_status dest: checks_failed)
  have webm: "fst (make_webm sub_counter ''_[0-9]+$'' sh_ok demo_card demo_world) =
     Inr (0, ''done'', [])"
    using tk [THEN conjunct2, THEN conjunct2, THEN conjunct2, THEN conjunct2, THEN conjunct2, THEN conjunct2, THEN conjunct2, THEN conjunct2, THEN conjunct2, THEN mp,
              OF conjI [OF demo_webm make_webm_cmd_eq], THEN conjunct1]
    by (auto simp: sh_ok_status dest: checks_succeeded)
  from medium small jpg icons_small icons_medium icons_large png gif mp4 webm
  show ?thesis by (intro conjI)
qed


subsection \<open>Static variants\<close>

lemma checked_run_executed_stage:
  "stage = checked_run ecls ret sh cmd w \<Longrightarrow> executed (snd stage) = executed w @ [cmd]"
  by (simp add: checked_run_executed)

lemma split_blanks_word:
  "CHR '' '' \<notin> set xs \<Longrightarrow> split_blanks w (xs @ rest) = split_blanks (w @ xs) rest"
  by (induction xs arbitrary: w) auto

lemma split_blanks_last:
  "CHR '' '' \<notin> set xs \<Longrightarrow> split_blanks w xs = (if w @ xs = [] then [] else [w @ xs])"
  by (induction xs arbitrary: w) auto

lemma jpg_words:
  assumes "CHR '' '' \<notin> set input" "input \<noteq> []" "CHR '' '' \<notin> set output" "output \<noteq> []"
  shows "blank_separated (jpg_recipe input output) = ''convert'' # input # jpg_options @ [output]"
proof -
  have a: "split_blanks [] (input @ rest) = split_blanks input rest" for rest
    using split_blanks_word [OF assms(1), of "[]" rest] by simp
  have b: "split_blanks [] output = [output]"
    using split_blanks_last [OF assms(3), of "[]"] assms(4) by simp
  show ?thesis
    using assms(2)
    by (simp add: blank_separated_def jpg_recipe_def jpg_options_def a b)
qed

lemmas crop_eval =
  gravity_anchor_def parse_geometry_def field_def is_digit_def number_def window_rows_def

lemma jpg_crop: "crop_rows Top jpg_options 303 = Some (1, 303)"
  by (simp add: jpg_options_def crop_eval)

text \<open>
  C5, as the specification states it, fails at the crop. The jpg command for a card is the
  word \<^verbatim>\<open>convert\<close>, the input, the options of the jpg copy and the output; of the 303 rows
  that the resize aims at, its crop under gravity south keeps the rows 1 to 302 and takes
  away row 0, the top one. One pixel off the bottom would keep the rows 0 to 301.
\<close>

theorem jpg_crop_counterexample:
  "make_jpg_copy_cmd ''in/A.png'' ''out/mediumj/A.jpg'' =
     Inr (jpg_recipe ''in/A.png'' ''out/mediumj/A.jpg'') \<and>
   blank_separated (jpg_recipe ''in/A.png'' ''out/mediumj/A.jpg'') =
     ''convert'' # ''in/A.png'' # jpg_options @ [''out/mediumj/A.jpg''] \<and>
   crop_rows Top jpg_options 303 = Some (1, 303) \<and>
   crop_rows Top jpg_options 303 \<noteq> Some (0, 302)"
  by (simp add: make_jpg_copy_cmd_eq jpg_words jpg_crop)

text \<open>
  C5, amended. The five resize templates are the resize recipe (filter lanczos, unsharp
  \<^verbatim>\<open>1.5x1+0.7+0.02\<close>) at the geometries 200x303, 123x186, 11x16, 30x44 and 40x60, and the
  jpg template is the jpg recipe, for every input and output path. Each of the six stages
  hands exactly one command to the shell, its template on the paths of the card; the jpg
  stage replaces the extension of its output path by \<^verbatim>\<open>.jpg\<close>. The words of the jpg
  command, for paths without blanks, are \<^verbatim>\<open>convert\<close>, the input, the options of the jpg copy
  (background \<^verbatim>\<open>#242424\<close>, flatten, filter lanczos, resize 200x303, gravity south, crop
  200x302+0+0, unsharp, quality 85 percent) and the output; the crop keeps the window of
  302 rows at the bottom edge, so of 303 rows it takes the one pixel row off the top.
\<close>

theorem static_variant_commands:
  "make_medium_copy_cmd input output = Inr (resize_recipe ''200x303'' input output) \<and>
   make_small_copy_cmd input output = Inr (resize_recipe ''123x186'' input output) \<and>
   make_small_icons_cmd input output = Inr (resize_recipe ''11x16'' input output) \<and>
   make_medium_icons_cmd input output = Inr (resize_recipe ''30x44'' input output) \<and>
   make_large_icons_cmd input output = Inr (resize_recipe ''40x60'' input output) \<and>
   make_jpg_copy_cmd input output = Inr (jpg_recipe input output) \<and>
   (get_input_output self ''medium'' = Inr (input, output) \<longrightarrow>
      executed (snd (make_medium_copy sh self w)) =
        executed w @ [resize_recipe ''200x303'' input output]) \<and>
   (get_input_output self ''small'' = Inr (input, output) \<longrightarrow>
      executed (snd (make_small_copy sh self w)) =
        executed w @ [resize_recipe ''123x186'' input output]) \<and>
   (get_input_output self ''icons/small'' = Inr (input, output) \<longrightarrow>
      executed (snd (make_small_icons sh self w)) =
        executed w @ [resize_recipe ''11x16'' input output]) \<and>
   (get_input_output self ''icons/medium'' = Inr (input, output) \<longrightarrow>
      executed (snd (make_medium_icons sh self w)) =
        executed w @ [resize_recipe ''30x44'' input output]) \<and>
   (get_input_output self ''icons/large'' = Inr (input, output) \<longrightarrow>
      executed (snd (make_large_icons sh self w)) =
        executed w @ [resize_recipe ''40x60'' input output]) \<and>
   (get_input_output self ''mediumj'' = Inr (input, output) \<longrightarrow>
      executed (snd (make_jpg_copy sh self w)) =
        executed w @ [jpg_recipe input (fst (splitext output) @ ''.jpg'')]) \<and>
   (CHR '' '' \<notin> set input \<and> input \<noteq> [] \<and> CHR '' '' \<notin> set output \<and> output \<noteq> [] \<longrightarrow>
      blank_separated (jpg_recipe input output) =
        ''convert'' # input # jpg_options @ [output]) \<and>
   crop_rows Top jpg_options 303 = Some (1, 303)"
proof (intro conjI impI)
  assume "get_input_output self ''medium'' = Inr (input, output)"
  from make_medium_copy_run [OF this make_medium_copy_cmd_eq]
  show "executed (snd (make_medium_copy sh self w)) =
        executed w @ [resize_recipe ''200x303'' input output]"
    by (rule checked_run_executed_stage)
next
  assume "get_input_output self ''small'' = Inr (input, output)"
  from make_small_copy_run [OF this make_small_copy_cmd_eq]
  show "executed (snd (make_small_copy sh self w)) =
        executed w @ [resize_recipe ''123x186'' input output]"
    by (rule checked_run_executed_stage)
next
  assume "get_input_output self ''icons/small'' = Inr (input, output)"
  from make_small_icons_run [OF this make_small_icons_cmd_eq]
  show "executed (snd (make_small_icons sh self w)) =
        executed w @ [resize_recipe ''11x16'' input output]"
    by (rule checked_run_executed_stage)
next
  assume "get_input_output self ''icons/medium'' = Inr (input, output)"
  from make_medium_icons_run [OF this make_medium_icons_cmd_eq]
  show "executed (snd (make_medium_icons sh self w)) =
        executed w @ [resize_recipe ''30x44'' input output]"
    by (rule checked_run_executed_stage)
next
  assume "get_input_output self ''icons/large'' = Inr (input, output)"
  from make_large_icons_run [OF this make_large_icons_cmd_eq]
  show "executed (snd (make_large_icons sh self w)) =
        executed w @ [resize_recipe ''40x60'' input output]"
    by (rule checked_run_executed_stage)
next
  assume "get_input_output self ''mediumj'' = Inr (input, output)"
  from make_jpg_copy_run [OF this make_jpg_copy_cmd_eq]
  show "executed (snd (make_jpg_copy sh self w)) =
        executed w @ [jpg_recipe input (fst (splitext output) @ ''.jpg'')]"
    by (rule checked_run_executed_stage)
next
  assume "CHR '' '' \<notin> set input \<and> input \<noteq> [] \<and> CHR '' '' \<notin> set output \<and> output \<noteq> []"
  then show "blank_separated (jpg_recipe input output) =
        ''convert'' # input # jpg_options @ [output]"
    by (simp add: jpg_words)
qed (rule make_medium_copy_cmd_eq make_small_copy_cmd_eq make_small_icons_cmd_eq
      make_medium_icons_cmd_eq make_large_icons_cmd_eq make_jpg_copy_cmd_eq jpg_crop)+

theorem static_variant_commands_witness:
  \<open>executed (snd (make_medium_copy sh_ok demo_card demo_world)) =
     [''convert in/A.png -filter lanczos -resize 200x303 -unsharp 1.5x1+0.7+0.02 out/medium/A.png''] \<and>
   executed (snd (make_small_copy sh_ok demo_card demo_world)) =
     [''convert in/A.png -filter lanczos -resize 123x186 -unsharp 1.5x1+0.7+0.02 out/small/A.png''] \<and>
   executed (snd (make_small_icons sh_ok demo_card demo_world)) =
     [''convert in/A.png -filter lanczos -resize 11x16 -unsharp 1.5x1+0.7+0.02 out/icons/small/A.png''] \<and>
   executed (snd (make_medium_icons sh_ok demo_card demo_world)) =
     [''convert in/A.png -filter lanczos -resize 30x44 -unsharp 1.5x1+0.7+0.02 out/icons/medium/A.png''] \<and>
   executed (snd (make_large_icons sh_ok demo_card demo_world)) =
     [''convert in/A.png -filter lanczos -resize 40x60 -unsharp 1.5x1+0.7+0.02 out/icons/large/A.png''] \<and>
   executed (snd (make_jpg_copy sh_ok demo_card demo_world)) =
     [''convert in/A.png -background "#242424" -layers flatten -filter lanczos -resize 200x303 +repage -gravity south -crop 200x302+0+0 +repage -unsharp 1.5x1+0.7+0.02 -quality 85% out/mediumj/A.jpg''] \<and>
   blank_separated (jpg_recipe ''in/A.png'' ''out/mediumj/A.jpg'') =
     ''convert'' # ''in/A.png'' # jpg_options @ [''out/mediumj/A.jpg'']\<close>
proof -
  note t = static_variant_commands [where self = demo_card and w = demo_world and sh = sh_ok,
    THEN conjunct2, THEN conjunct2, THEN conjunct2, THEN conjunct2, THEN conjunct2,
    THEN conjunct2]
  have w0: "executed demo_world = []"
    by (simp add: demo_world_def)
  have plain: "CHR '' '' \<notin> set ''in/A.png'' \<and> ''in/A.png'' \<noteq> [] \<and>
      CHR '' '' \<notin> set ''out/mediumj/A.jpg'' \<and> ''out/mediumj/A.jpg'' \<noteq> []"
    by simp
  show ?thesis
    using t [THEN conjunct1, THEN mp, OF demo_medium]
      t [THEN conjunct2, THEN conjunct1, THEN mp, OF demo_small]
      t [THEN conjunct2, THEN conjunct2, THEN conjunct1, THEN mp, OF demo_icons_small]
      t [THEN conjunct2, THEN conjunct2, THEN conjunct2, THEN conjunct1, THEN mp,
         OF demo_icons_medium]
      t [THEN conjunct2, THEN conjunct2, THEN conjunct2, THEN conjunct2, THEN conjunct1,
         THEN mp, OF demo_icons_large]
      t [THEN conjunct2, THEN conjunct2, THEN conjunct2, THEN conjunct2, THEN conjunct2,
         THEN conjunct1, THEN mp, OF demo_mediumj]
      t [THEN conjunct2, THEN conjunct2, THEN conjunct2, THEN conjunct2, THEN conjunct2,
         THEN conjunct2, THEN conjunct1, THEN mp, OF plain]
    by (simp add: w0 resize_recipe_def jpg_recipe_def jpg_options_def demo_jpg_output)
qed

subsection \<open>The animated gif stage\<close>

text \<open>
  C8. The converter runs first. When it exits with zero the stage removes the container,
  the animated png that was the converter's input, from the files the converter left and
  returns the triple; when it exits with another status the stage raises the animated-gif
  error and the files are exactly those the converter left, the container among them if
  it was there.
\<close>

theorem animated_gif_removes_container:
  assumes "get_input_output self ''animated'' = Inr (input, container)"
    and "make_animated_gif_cmd container (fst (splitext container) @ ''.gif'') = Inr cmd"
    and "sh cmd (disk w) = ((return_code, out, err), disk')"
  shows "(return_code = 0 \<and> container \<in> disk' \<longrightarrow>
            make_animated_gif sh self w =
              (Inr (return_code, out, err),
               \<lparr>disk = disk' - {container}, executed = executed w @ [cmd]\<rparr>)) \<and>
         (return_code \<noteq> 0 \<longrightarrow>
            make_animated_gif sh self w =
              (Inl (CardConvertError MakeAnimatedGIFError cmd return_code out err),
               \<lparr>disk = disk', executed = executed w @ [cmd]\<rparr>))"
  using make_animated_gif_run [where sh = sh and w = w, OF assms] by simp

theorem animated_gif_removes_container_witness:
  "make_animated_gif sh_ok demo_card demo_world =
     (Inr (0, ''done'', []),
      \<lparr>disk = {}, executed = [''apng2gif out/animated/A.png out/animated/A.gif'']\<rparr>) \<and>
   make_animated_gif sh_fail demo_card demo_world =
     (Inl (CardConvertError MakeAnimatedGIFError
             ''apng2gif out/animated/A.png out/animated/A.gif'' 1 [] ''failed''),
      \<lparr>disk = {''out/animated/A.png''},
       executed = [''apng2gif out/animated/A.png out/animated/A.gif'']\<rparr>)"
proof -
  have c: "make_animated_gif_cmd ''out/animated/A.png''
             (fst (splitext ''out/animated/A.png'') @ ''.gif'') =
           Inr ''apng2gif out/animated/A.png out/animated/A.gif''"
    by (simp add: make_animated_gif_cmd_eq demo_gif_output)
  have ok: "sh_ok ''apng2gif out/animated/A.png out/animated/A.gif'' (disk demo_world) =
      ((0, ''done'', []), {''out/animated/A.png''})"
    by (simp add: sh_ok_def demo_world_def)
  have fail: "sh_fail ''apng2gif out/animated/A.png out/animated/A.gif'' (disk demo_world) =
      ((1, [], ''failed''), {''out/animated/A.png''})"
    by (simp add: sh_fail_def demo_world_def)
  show ?thesis
    using animated_gif_removes_container [where sh = sh_ok and w = demo_world,
            OF demo_animated c ok]
      animated_gif_removes_container [where sh = sh_fail and w = demo_world,
            OF demo_animated c fail]
    by (simp add: demo_world_def)
qed


subsection \<open>Web encodes\<close>

lemma get_input_output_animated_update [simp]:
  "get_input_output (self\<lparr>animated := frames\<rparr>) output_type = get_input_output self output_type"
  by (simp add: get_input_output_def Let_def split: option.splits)

lemma web_format_prep_eq:
  assumes "ff_out self = Some (frame # rest)"
    and "frame_pattern sub frame_re frame = Inr pattern"
    and "get_input_output self ''animated'' = Inr (input, output)"
  shows "web_format_prep sub frame_re self fext =
         Inr (pattern, fst (splitext output) @ ''.'' @ fext)"
  using assms
  by (auto simp: web_format_prep_def frame_pattern_def case_prod_beta split: sum.splits)

text \<open>
  C4, as the specification states it, fails. The card below has the original frames
  \<^verbatim>\<open>in/anim/A_0001.png\<close> and \<^verbatim>\<open>in/anim/A_0002.png\<close>, whose pattern would be
  \<^verbatim>\<open>in/anim/A_%04d.png\<close>; the input pattern of both web encodes is \<^verbatim>\<open>tmp/ff_A_%04d.png\<close>,
  derived from the first entry of \<^verbatim>\<open>ff_out\<close>.
\<close>

theorem web_encode_original_frames_counterexample:
  "animated demo_card = Some [''in/anim/A_0001.png'', ''in/anim/A_0002.png''] \<and>
   frame_pattern sub_counter ''_[0-9]+$'' ''in/anim/A_0001.png'' = Inr ''in/anim/A_%04d.png'' \<and>
   frame_pattern sub_counter ''_[0-9]+$'' ''in/anim/A_0002.png'' = Inr ''in/anim/A_%04d.png'' \<and>
   web_format_prep sub_counter ''_[0-9]+$'' demo_card ''mp4'' =
     Inr (''tmp/ff_A_%04d.png'', ''out/animated/A.mp4'') \<and>
   web_format_prep sub_counter ''_[0-9]+$'' demo_card ''webm'' =
     Inr (''tmp/ff_A_%04d.png'', ''out/animated/A.webm'')"
  by (simp add: demo_frames demo_mp4 demo_webm)
     (simp add: frame_pattern_def path_eval sub_counter_def counter_prefix_def)

text \<open>
  C4, amended. The two web-encode stages derive their input pattern from the first entry
  of the card's \<^verbatim>\<open>ff_out\<close> list, by substituting the frame pattern in its name with the
  placeholder \<^verbatim>\<open>_%04d\<close>; neither the original frames of the card nor the animated container
  are read. Both encodes run at 11 frames per second, the mp4 one with baseline profile,
  level 3.0 and pixel format yuv420p, the webm one with default settings, and the output is
  the animated output path with its extension replaced by \<^verbatim>\<open>mp4\<close> or \<^verbatim>\<open>webm\<close>.
\<close>

theorem web_encode_commands:
  assumes "ff_out self = Some (frame # rest)"
    and "frame_pattern sub frame_re frame = Inr pattern"
    and "get_input_output self ''animated'' = Inr (input, output)"
  shows "web_format_prep sub frame_re self fext =
           Inr (pattern, fst (splitext output) @ ''.'' @ fext) \<and>
         web_format_prep sub frame_re (self\<lparr>animated := frames\<rparr>) fext =
           web_format_prep sub frame_re self fext \<and>
         executed (snd (make_mp4 sub frame_re sh self w)) =
           executed w @ [mp4_recipe pattern (fst (splitext output) @ ''.mp4'')] \<and>
         executed (snd (make_webm sub frame_re sh self w)) =
           executed w @ [webm_recipe pattern (fst (splitext output) @ ''.webm'')]"
proof (intro conjI)
  show "web_format_prep sub frame_re self fext =
        Inr (pattern, fst (splitext output) @ ''.'' @ fext)"
    by (rule web_format_prep_eq [OF assms])
  show "web_format_prep sub frame_re (self\<lparr>animated := frames\<rparr>) fext =
        web_format_prep sub frame_re self fext"
    by (simp add: web_format_prep_def split: option.splits list.splits sum.splits prod.splits)
  have mp4: "web_format_prep sub frame_re self ''mp4'' =
             Inr (pattern, fst (splitext output) @ ''.mp4'')"
    using web_format_prep_eq [OF assms, of "''mp4''"] by simp
  from make_mp4_run [OF mp4 make_mp4_cmd_eq]
  show "executed (snd (make_mp4 sub frame_re sh self w)) =
        executed w @ [mp4_recipe pattern (fst (splitext output) @ ''.mp4'')]"
    by (rule checked_run_executed_stage)
  have webm: "web_format_prep sub frame_re self ''webm'' =
              Inr (pattern, fst (splitext output) @ ''.webm'')"
    using web_format_prep_eq [OF assms, of "''webm''"] by simp
  from make_webm_run [OF webm make_webm_cmd_eq]
  show "executed (snd (make_webm sub frame_re sh self w)) =
        executed w @ [webm_recipe pattern (fst (splitext output) @ ''.webm'')]"
    by (rule checked_run_executed_stage)
qed

theorem web_encode_commands_witness:
  "web_format_prep sub_counter ''_[0-9]+$'' demo_card ''mp4'' =
     Inr (''tmp/ff_A_%04d.png'', ''out/animated/A.mp4'') \<and>
   web_format_prep sub_counter ''_[0-9]+$'' (demo_card\<lparr>animated := None\<rparr>) ''mp4'' =
     web_format_prep sub_counter ''_[0-9]+$'' demo_card ''mp4'' \<and>
   executed (snd (make_mp4 sub_counter ''_[0-9]+$'' sh_ok demo_card demo_world)) =
     [''ffmpeg -f image2 -framerate 11 -i tmp/ff_A_%04d.png -profile:v baseline -level 3.0 -pix_fmt yuv420p out/animated/A.mp4''] \<and>
   executed (snd (make_webm sub_counter ''_[0-9]+$'' sh_ok demo_card demo_world)) =
     [''ffmpeg -f image2 -framerate 11 -i tmp/ff_A_%04d.png  out/animated/A.webm'']"
proof -
  have p: "frame_pattern sub_counter ''_[0-9]+$'' ''tmp/ff_A_0001.png'' = Inr ''tmp/ff_A_%04d.png''"
    by (simp add: frame_pattern_def path_eval sub_counter_def counter_prefix_def)
  have e: "fst (splitext ''out/animated/A.png'') = ''out/animated/A''"
    by (simp add: path_eval)
  show ?thesis
    using web_encode_commands [where sh = sh_ok and w = demo_world and fext = "''mp4''"
            and frames = None, OF demo_ff_out p demo_animated]
    by (simp add: e mp4_recipe_def webm_recipe_def demo_world_def)
qed


section \<open>The crawl\<close>

subsection \<open>Loops\<close>

lemma for_each_append:
  "for_each body (xs @ ys) s =
   (case for_each body xs s of Inl e \<Rightarrow> Inl e | Inr s' \<Rightarrow> for_each body ys s')"
  by (induction xs arbitrary: s) (auto split: sum.splits)

lemma for_each_invariant:
  assumes "for_each body xs s = Inr s'"
    and "P s"
    and "\<And>s x s'. x \<in> set xs \<Longrightarrow> P s \<Longrightarrow> body s x = Inr s' \<Longrightarrow> P s'"
  shows "P s'"
  using assms
proof (induction xs arbitrary: s)
  case Nil
  then show ?case by simp
next
  case (Cons x xs)
  from Cons.prems(1) obtain s1 where s1: "body s x = Inr s1" "for_each body xs s1 = Inr s'"
    by (auto split: sum.splits)
  have "P s1"
    by (rule Cons.prems(3) [OF _ Cons.prems(2) s1(1)]) simp
  then show ?case
    by (rule Cons.IH [OF s1(2)]) (rule Cons.prems(3), simp_all)
qed

lemma for_each_total:
  assumes "P s"
    and "\<And>s x. x \<in> set xs \<Longrightarrow> P s \<Longrightarrow> \<exists>s'. body s x = Inr s' \<and> P s'"
  shows "\<exists>s'. for_each body xs s = Inr s' \<and> P s'"
  using assms
proof (induction xs arbitrary: s)
  case Nil
  then show ?case by simp
next
  case (Cons x xs)
  from Cons.prems obtain s1 where s1: "body s x = Inr s1" "P s1"
    by (meson list.set_intros(1))
  from Cons.IH [OF s1(2)] Cons.prems(2) obtain s' where "for_each body xs s1 = Inr s'" "P s'"
    by (meson list.set_intros(2))
  with s1 show ?case by simp
qed

subsection \<open>One file\<close>

lemma static_file_cases:
  "static_file path cards file = Inr cards \<and>
     (hidden file \<or> fst (splitext file) \<in> dom cards) \<or>
   static_file path cards file =
     Inr (cards(fst (splitext file) \<mapsto> asset_bundle (join path file) [])) \<and>
     \<not> hidden file \<and> cards (fst (splitext file)) = None"
  by (auto simp: static_file_def asset_bundle_def Let_def)

lemma animated_file_cases:
  assumes "animated_file split frame_re path cards file = Inr cards'"
  shows "cards' = cards \<and>
           (hidden file \<or> (\<exists>k. frame_key split frame_re file = Inr k \<and> cards k = None)) \<or>
         (\<exists>k c frames. \<not> hidden file \<and> frame_key split frame_re file = Inr k \<and>
            cards k = Some c \<and> animated c = Some frames \<and>
            cards' = cards(k \<mapsto> c\<lparr>animated := Some (frames @ [join path file])\<rparr>))"
  using assms
  by (auto simp: animated_file_def frame_key_def Let_def
           split: if_splits sum.splits list.splits option.splits)

lemma animated_file_dropped:
  "\<not> hidden file \<Longrightarrow> frame_key split frame_re file = Inr k \<Longrightarrow> cards k = None \<Longrightarrow>
   animated_file split frame_re path cards file = Inr cards"
  by (auto simp: animated_file_def frame_key_def Let_def split: sum.splits list.splits)

lemma animated_file_appended:
  "\<not> hidden file \<Longrightarrow> frame_key split frame_re file = Inr k \<Longrightarrow> cards k = Some c \<Longrightarrow>
   animated c = Some frames \<Longrightarrow>
   animated_file split frame_re path cards file =
     Inr (cards(k \<mapsto> c\<lparr>animated := Some (frames @ [join path file])\<rparr>))"
  by (auto simp: animated_file_def frame_key_def Let_def split: sum.splits list.splits)

subsection \<open>Bundles only grow\<close>

lemma grows_refl: "grows cards cards"
  by (simp add: grows_def)

lemma grows_trans: "grows a b \<Longrightarrow> grows b c \<Longrightarrow> grows a c"
  unfolding grows_def
proof (intro allI impI)
  fix k x
  assume ab: "\<forall>k x. a k = Some x \<longrightarrow> (\<exists>y. b k = Some y \<and> static y = static x \<and>
      (\<forall>frames. animated x = Some frames \<longrightarrow> (\<exists>extra. animated y = Some (frames @ extra))))"
    and bc: "\<forall>k y. b k = Some y \<longrightarrow> (\<exists>z. c k = Some z \<and> static z = static y \<and>
      (\<forall>frames. animated y = Some frames \<longrightarrow> (\<exists>extra. animated z = Some (frames @ extra))))"
    and x: "a k = Some x"
  from ab x obtain y where y: "b k = Some y" "static y = static x"
    "\<forall>frames. animated x = Some frames \<longrightarrow> (\<exists>extra. animated y = Some (frames @ extra))"
    by blast
  from bc y(1) obtain z where z: "c k = Some z" "static z = static y"
    "\<forall>frames. animated y = Some frames \<longrightarrow> (\<exists>extra. animated z = Some (frames @ extra))"
    by blast
  have "\<forall>frames. animated x = Some frames \<longrightarrow> (\<exists>extra. animated z = Some (frames @ extra))"
  proof (intro allI impI)
    fix frames
    assume "animated x = Some frames"
    with y(3) obtain e1 where "animated y = Some (frames @ e1)" by blast
    with z(3) obtain e2 where "animated z = Some ((frames @ e1) @ e2)" by blast
    then show "\<exists>extra. animated z = Some (frames @ extra)" by simp
  qed
  with z y(2) show "\<exists>z. c k = Some z \<and> static z = static x \<and>
      (\<forall>frames. animated x = Some frames \<longrightarrow> (\<exists>extra. animated z = Some (frames @ extra)))"
    by simp
qed

lemma static_file_grows: "static_file path cards file = Inr cards' \<Longrightarrow> grows cards cards'"
  using static_file_cases [of path cards "file"]
  by (auto simp: grows_def)

lemma animated_file_grows:
  "animated_file split frame_re path cards file = Inr cards' \<Longrightarrow> grows cards cards'"
  by (drule animated_file_cases) (auto simp: grows_def)

lemma for_each_grows:
  assumes "for_each body xs s = Inr s'"
    and "\<And>s x s'. body s x = Inr s' \<Longrightarrow> grows s s'"
  shows "grows s s'"
  by (rule for_each_invariant [OF assms(1), where P = "grows s"])
     (auto intro: grows_refl grows_trans assms(2))

lemma visit_grows:
  "visit split frame_re anim_folder cards entry = Inr cards' \<Longrightarrow> grows cards cards'"
  by (cases entry)
     (auto simp: visit_def split: if_splits
           intro: for_each_grows static_file_grows animated_file_grows)

lemma walk_grows:
  "for_each (visit split frame_re anim_folder) entries cards = Inr cards' \<Longrightarrow> grows cards cards'"
  by (erule for_each_grows) (rule visit_grows)

subsection \<open>Every path of a bundle has a source\<close>

lemma sourced_empty: "sourced split frame_re anim_folder walk Map.empty"
  by (simp add: sourced_def)

lemma static_file_sourced:
  assumes "(path, subdir, nondirs) \<in> set walk" and "basename path \<noteq> anim_folder"
    and "file \<in> set nondirs"
    and "sourced split frame_re anim_folder walk cards"
    and "static_file path cards file = Inr cards'"
  shows "sourced split frame_re anim_folder walk cards'"
proof -
  have src: "static_source anim_folder walk (fst (splitext file)) (join path file)"
    if "\<not> hidden file"
    unfolding static_source_def using assms(1-3) that by blast
  from static_file_cases [of path cards "file"] assms(5)
  consider "cards' = cards"
    | "\<not> hidden file" "cards (fst (splitext file)) = None"
      "cards' = cards(fst (splitext file) \<mapsto> asset_bundle (join path file) [])"
    by auto
  then show ?thesis
  proof cases
    case 1
    with assms(4) show ?thesis by simp
  next
    case 2
    show ?thesis
      unfolding sourced_def
    proof (intro allI impI)
      fix k b
      assume b: "cards' k = Some b"
      show "(\<exists>p. static b = Some p \<and> static_source anim_folder walk k p) \<and>
            (\<exists>frames. animated b = Some frames \<and>
               (\<forall>p\<in>set frames. frame_source split frame_re anim_folder walk k p))"
      proof (cases "k = fst (splitext file)")
        case True
        with b 2(3) have "b = asset_bundle (join path file) []" by simp
        with True src [OF 2(1)] show ?thesis by (simp add: asset_bundle_def)
      next
        case False
        with b 2(3) have "cards k = Some b" by simp
        with assms(4) show ?thesis by (simp add: sourced_def)
      qed
    qed
  qed
qed

lemma animated_file_sourced:
  assumes "(path, subdir, nondirs) \<in> set walk" and "basename path = anim_folder"
    and "file \<in> set nondirs"
    and "sourced split frame_re anim_folder walk cards"
    and "animated_file split frame_re path cards file = Inr cards'"
  shows "sourced split frame_re anim_folder walk cards'"
proof -
  have src: "frame_source split frame_re anim_folder walk k (join path file)"
    if "\<not> hidden file" "frame_key split frame_re file = Inr k" for k
    unfolding frame_source_def using assms(1-3) that by blast
  from animated_file_cases [OF assms(5)] show ?thesis
  proof (elim disjE exE conjE)
    fix k c frames
    assume h: "\<not> hidden file" "frame_key split frame_re file = Inr k" "cards k = Some c"
      "animated c = Some frames"
      "cards' = cards(k \<mapsto> c\<lparr>animated := Some (frames @ [join path file])\<rparr>)"
    note old = assms(4) [unfolded sourced_def, rule_format, OF h(3)]
    from old h(4) have c: "\<exists>p. static c = Some p \<and> static_source anim_folder walk k p"
      "\<forall>p\<in>set frames. frame_source split frame_re anim_folder walk k p"
      by auto
    show ?thesis
      unfolding sourced_def
    proof (intro allI impI)
      fix k' b
      assume b: "cards' k' = Some b"
      show "(\<exists>p. static b = Some p \<and> static_source anim_folder walk k' p) \<and>
            (\<exists>frames. animated b = Some frames \<and>
               (\<forall>p\<in>set frames. frame_source split frame_re anim_folder walk k' p))"
      proof (cases "k' = k")
        case True
        with b h(5) have "b = c\<lparr>animated := Some (frames @ [join path file])\<rparr>" by simp
        with True c src [OF h(1,2)] show ?thesis by auto
      next
        case False
        with b h(5) have "cards k' = Some b" by simp
        with assms(4) show ?thesis by (simp add: sourced_def)
      qed
    qed
  qed (use assms(4) in simp_all)
qed

lemma visit_sourced:
  assumes "entry \<in> set walk"
    and "sourced split frame_re anim_folder walk cards"
    and "visit split frame_re anim_folder cards entry = Inr cards'"
  shows "sourced split frame_re anim_folder walk cards'"
proof -
  obtain path subdir nondirs where e: "entry = (path, subdir, nondirs)"
    by (cases entry) auto
  show ?thesis
  proof (cases "basename path = anim_folder")
    case True
    with assms(3) e
    have loop: "for_each (animated_file split frame_re path) (sort nondirs) cards = Inr cards'"
      by (simp add: visit_def)
    show ?thesis
      by (rule for_each_invariant
            [OF loop, where P = "sourced split frame_re anim_folder walk", OF assms(2)])
         (rule animated_file_sourced [OF assms(1) [unfolded e] True], simp_all)
  next
    case False
    with assms(3) e
    have loop: "for_each (static_file path) (sort nondirs) cards = Inr cards'"
      by (simp add: visit_def)
    show ?thesis
      by (rule for_each_invariant
            [OF loop, where P = "sourced split frame_re anim_folder walk", OF assms(2)])
         (rule static_file_sourced [OF assms(1) [unfolded e] False], simp_all)
  qed
qed

lemma walk_sourced:
  assumes "for_each (visit split frame_re anim_folder) walk Map.empty = Inr cards"
  shows "sourced split frame_re anim_folder walk cards"
  by (rule for_each_invariant
        [OF assms, where P = "sourced split frame_re anim_folder walk", OF sourced_empty])
     (rule visit_sourced)

lemma crawler_walk:
  "fs target_dir = Some t \<Longrightarrow>
   crawler split fs target_dir frame_re anim_folder =
     for_each (visit split frame_re anim_folder) (os_walk target_dir t) Map.empty"
  by (simp add: crawler_def isdir_def)

subsection \<open>Names and paths\<close>

lemma rfind_absent: "c \<notin> set p \<Longrightarrow> rfind p c = - 1"
  by (simp add: rfind_def)

lemma rfind_last: "c \<notin> set f \<Longrightarrow> rfind (p @ c # f) c = int (length p)"
proof -
  assume "c \<notin> set f"
  then have "takeWhile (\<lambda>x. x \<noteq> c) (rev f @ c # rev p) = rev f"
    by (subst takeWhile_append2) auto
  then show ?thesis
    by (simp add: rfind_def)
qed

lemma basename_plain: "CHR ''/'' \<notin> set f \<Longrightarrow> basename f = f"
  by (simp add: basename_def rfind_absent)

lemma basename_after_slash: "CHR ''/'' \<notin> set f \<Longrightarrow> basename (p @ CHR ''/'' # f) = f"
proof -
  assume "CHR ''/'' \<notin> set f"
  then have "rfind (p @ CHR ''/'' # f) CHR ''/'' = int (length p)"
    by (rule rfind_last)
  moreover have "nat (int (length p) + 1) = Suc (length p)"
    by simp
  ultimately show ?thesis
    by (simp add: basename_def)
qed

lemma basename_join:
  assumes "CHR ''/'' \<notin> set f"
  shows "basename (join p f) = f"
proof (cases "p = [] \<or> last p = CHR ''/''")
  case True
  from assms have nohd: "\<not> (f \<noteq> [] \<and> hd f = CHR ''/'')"
    by (cases f) auto
  show ?thesis
  proof (cases "p = []")
    case True
    with nohd assms show ?thesis
      by (simp add: join_def basename_plain)
  next
    case False
    with True obtain q where q: "p = q @ [CHR ''/'']"
      by (metis append_butlast_last_id)
    from nohd q have "join p f = q @ CHR ''/'' # f"
      by (simp add: join_def)
    with assms show ?thesis
      by (simp add: basename_after_slash)
  qed
next
  case False
  from assms have "\<not> (f \<noteq> [] \<and> hd f = CHR ''/'')"
    by (cases f) auto
  with False have "join p f = p @ CHR ''/'' # f"
    by (simp add: join_def)
  with assms show ?thesis
    by (simp add: basename_after_slash)
qed


subsection \<open>Facts about the test trees\<close>

lemmas crawl_eval =
  crawler_def isdir_def visit_def static_file_def animated_file_def hidden_def
  split_counter_def counter_prefix_def asset_bundle_def

lemma key_A_0001: "frame_key split_counter ''_[0-9]+$'' ''A_0001.png'' = Inr ''A''"
  by (simp add: frame_key_def path_eval split_counter_def counter_prefix_def)

lemma key_A_0002: "frame_key split_counter ''_[0-9]+$'' ''A_0002.png'' = Inr ''A''"
  by (simp add: frame_key_def path_eval split_counter_def counter_prefix_def)

lemma static_first_walk:
  "os_walk ''in'' static_first_tree =
     [(''in'', [''enUS'', ''anim''], []), (''in/enUS'', [], [''A.png''])] @
     (''in/anim'', [], [''A_0002.png'', ''A_0001.png'']) # []"
  by (simp add: static_first_tree_def join_def)

lemma static_first_seen:
  "for_each (visit split_counter ''_[0-9]+$'' ''anim'')
     [(''in'', [''enUS'', ''anim''], []), (''in/enUS'', [], [''A.png''])] Map.empty =
   Inr [''A'' \<mapsto> asset_bundle ''in/enUS/A.png'' []]"
  by (simp add: crawl_eval path_eval)

lemma static_first_crawl:
  "crawler split_counter static_first_fs ''in'' ''_[0-9]+$'' ''anim'' =
   Inr [''A'' \<mapsto> asset_bundle ''in/enUS/A.png''
                    [''in/anim/A_0001.png'', ''in/anim/A_0002.png'']]"
  by (simp add: static_first_fs_def static_first_tree_def crawl_eval path_eval)

lemma anim_first_crawl:
  "crawler split_counter anim_first_fs ''in'' ''_[0-9]+$'' ''anim'' =
   Inr [''A'' \<mapsto> asset_bundle ''in/enUS/A.png'' []]"
  by (simp add: anim_first_fs_def crawl_eval path_eval)

lemma hidden_walk:
  "os_walk ''in'' hidden_tree =
     [(''in'', [''anim''], [''.DS_Store'', ''A.png'']),
      (''in/anim'', [], [''A_0001.png'', ''.A_0002.png''])]"
  by (simp add: hidden_tree_def join_def)

lemma hidden_crawl:
  "crawler split_counter hidden_fs ''in'' ''_[0-9]+$'' ''anim'' =
   Inr [''A'' \<mapsto> asset_bundle ''in/A.png'' [''in/anim/A_0001.png'']]"
  by (simp add: hidden_fs_def hidden_tree_def crawl_eval path_eval)

subsection \<open>Bundles and their static file\<close>

text \<open>
  C10. Every bundle of the returned mapping has its static path set, and that path is the
  full path of a visible file with the bundle's base name in a walked directory that is not
  the animation folder. A frame whose key has no bundle when the frame is visited leaves
  the mapping as it is. Through any further part of the walk a bundle keeps its static
  path.
\<close>

theorem bundles_have_static:
  "(fs target_dir = Some t \<and> crawler split fs target_dir frame_re anim_folder = Inr cards \<and>
    cards k = Some b \<longrightarrow>
      (\<exists>p. static b = Some p \<and> static_source anim_folder (os_walk target_dir t) k p)) \<and>
   (\<not> hidden file \<and> frame_key split frame_re file = Inr k \<and> seen k = None \<longrightarrow>
      animated_file split frame_re path seen file = Inr seen) \<and>
   (for_each (visit split frame_re anim_folder) entries seen = Inr later \<and> seen k = Some b \<longrightarrow>
      (\<exists>b'. later k = Some b' \<and> static b' = static b))"
proof (intro conjI impI; (elim conjE)?)
  assume "fs target_dir = Some t" "crawler split fs target_dir frame_re anim_folder = Inr cards"
    "cards k = Some b"
  with walk_sourced [of split frame_re anim_folder "os_walk target_dir t" cards]
  show "\<exists>p. static b = Some p \<and> static_source anim_folder (os_walk target_dir t) k p"
    by (simp add: crawler_walk sourced_def)
next
  assume "\<not> hidden file" "frame_key split frame_re file = Inr k" "seen k = None"
  then show "animated_file split frame_re path seen file = Inr seen"
    by (rule animated_file_dropped)
next
  assume "for_each (visit split frame_re anim_folder) entries seen = Inr later" "seen k = Some b"
  with walk_grows [of split frame_re anim_folder entries seen later]
  show "\<exists>b'. later k = Some b' \<and> static b' = static b"
    unfolding grows_def by blast
qed

theorem bundles_have_static_witness:
  "hidden_fs ''in'' = Some hidden_tree \<and>
   crawler split_counter hidden_fs ''in'' ''_[0-9]+$'' ''anim'' =
     Inr [''A'' \<mapsto> asset_bundle ''in/A.png'' [''in/anim/A_0001.png'']] \<and>
   static_source ''anim'' (os_walk ''in'' hidden_tree) ''A'' ''in/A.png'' \<and>
   animated_file split_counter ''_[0-9]+$'' ''in/anim'' Map.empty ''A_0001.png'' = Inr Map.empty \<and>
   for_each (visit split_counter ''_[0-9]+$'' ''anim'') [(''in/deDE'', [], [''A.jpg''])]
     [''A'' \<mapsto> asset_bundle ''in/enUS/A.png'' []] =
     Inr [''A'' \<mapsto> asset_bundle ''in/enUS/A.png'' []] \<and>
   (\<exists>b'. [''A'' \<mapsto> asset_bundle ''in/enUS/A.png'' []] ''A'' = Some b' \<and>
         static b' = static (asset_bundle ''in/enUS/A.png'' []))"
proof -
  have fs: "hidden_fs ''in'' = Some hidden_tree"
    by (simp add: hidden_fs_def)
  have b: "[''A'' \<mapsto> asset_bundle ''in/A.png'' [''in/anim/A_0001.png'']] ''A'' =
           Some (asset_bundle ''in/A.png'' [''in/anim/A_0001.png''])"
    by simp
  have vis: "\<not> hidden ''A_0001.png''"
    by (simp add: hidden_def)
  have later: "for_each (visit split_counter ''_[0-9]+$'' ''anim'') [(''in/deDE'', [], [''A.jpg''])]
     [''A'' \<mapsto> asset_bundle ''in/enUS/A.png'' []] =
     Inr [''A'' \<mapsto> asset_bundle ''in/enUS/A.png'' []]"
    by (simp add: crawl_eval path_eval)
  have seen: "[''A'' \<mapsto> asset_bundle ''in/enUS/A.png'' []] ''A'' =
     Some (asset_bundle ''in/enUS/A.png'' [])"
    by simp
  note t = bundles_have_static [where fs = hidden_fs and target_dir = "''in''"
      and t = hidden_tree and split = split_counter and frame_re = "''_[0-9]+$''"
      and anim_folder = "''anim''" and k = "''A''"
      and cards = "[''A'' \<mapsto> asset_bundle ''in/A.png'' [''in/anim/A_0001.png'']]"
      and b = "asset_bundle ''in/A.png'' [''in/anim/A_0001.png'']"]
  from t [THEN conjunct1, THEN mp, OF conjI [OF fs conjI [OF hidden_crawl b]]]
  have one: "static_source ''anim'' (os_walk ''in'' hidden_tree) ''A'' ''in/A.png''"
    by (simp add: asset_bundle_def)
  have two: "animated_file split_counter ''_[0-9]+$'' ''in/anim'' Map.empty ''A_0001.png'' =
      Inr Map.empty"
    using bundles_have_static [where split = split_counter and frame_re = "''_[0-9]+$''"
        and k = "''A''" and seen = Map.empty and path = "''in/anim''"
        and ?file = "''A_0001.png''", THEN conjunct2, THEN conjunct1]
      vis key_A_0001
    by simp
  have three: "\<exists>b'. [''A'' \<mapsto> asset_bundle ''in/enUS/A.png'' []] ''A'' = Some b' \<and>
      static b' = static (asset_bundle ''in/enUS/A.png'' [])"
    by (rule bundles_have_static [where split = split_counter and frame_re = "''_[0-9]+$''"
        and anim_folder = "''anim''" and k = "''A''"
        and seen = "[''A'' \<mapsto> asset_bundle ''in/enUS/A.png'' []]"
        and later = "[''A'' \<mapsto> asset_bundle ''in/enUS/A.png'' []]"
        and entries = "[(''in/deDE'', [], [''A.jpg''])]"
        and b = "asset_bundle ''in/enUS/A.png'' []",
        THEN conjunct2, THEN conjunct2, THEN mp, OF conjI [OF later seen]])
  from fs hidden_crawl one two later three show ?thesis
    by (intro conjI)
qed


subsection \<open>Hidden files\<close>

lemma source_visible:
  assumes "plain_names walk"
    and "static_source anim_folder walk k p \<or> frame_source split frame_re anim_folder walk k p"
  shows "\<not> hidden (basename p)"
proof -
  from assms(2) obtain path subdir nondirs f
    where e: "(path, subdir, nondirs) \<in> set walk" "f \<in> set nondirs" "\<not> hidden f"
      "p = join path f"
    unfolding static_source_def frame_source_def by blast
  from assms(1) e(1,2) have "CHR ''/'' \<notin> set f"
    unfolding plain_names_def by blast
  with e(3,4) show ?thesis
    by (simp add: basename_join)
qed

text \<open>
  C9. In a walk whose file names are plain, every path held by a bundle of the returned
  mapping, the static path or a frame, is the full path of a visible file of the walk: its
  name does not start with a dot.
\<close>

theorem hidden_files_excluded:
  assumes "fs target_dir = Some t"
    and "plain_names (os_walk target_dir t)"
    and "crawler split fs target_dir frame_re anim_folder = Inr cards"
    and "cards k = Some b"
    and "p \<in> bundle_paths b"
  shows "\<not> hidden (basename p) \<and>
         (static_source anim_folder (os_walk target_dir t) k p \<or>
          frame_source split frame_re anim_folder (os_walk target_dir t) k p)"
proof -
  from assms(1,3) have "sourced split frame_re anim_folder (os_walk target_dir t) cards"
    by (simp add: crawler_walk walk_sourced)
  note src = this [unfolded sourced_def, rule_format, OF assms(4)]
  from src assms(5)
  have "static_source anim_folder (os_walk target_dir t) k p \<or>
        frame_source split frame_re anim_folder (os_walk target_dir t) k p"
    by (auto simp: bundle_paths_def)
  with source_visible [OF assms(2) this] show ?thesis
    by simp
qed

theorem hidden_files_excluded_witness:
  "hidden ''.DS_Store'' \<and> hidden ''.A_0002.png'' \<and>
   plain_names (os_walk ''in'' hidden_tree) \<and>
   crawler split_counter hidden_fs ''in'' ''_[0-9]+$'' ''anim'' =
     Inr [''A'' \<mapsto> asset_bundle ''in/A.png'' [''in/anim/A_0001.png'']] \<and>
   bundle_paths (asset_bundle ''in/A.png'' [''in/anim/A_0001.png'']) =
     {''in/A.png'', ''in/anim/A_0001.png''} \<and>
   \<not> hidden (basename ''in/A.png'') \<and> \<not> hidden (basename ''in/anim/A_0001.png'')"
proof -
  have fs: "hidden_fs ''in'' = Some hidden_tree"
    by (simp add: hidden_fs_def)
  have plain: "plain_names (os_walk ''in'' hidden_tree)"
    by (simp add: hidden_walk plain_names_def)
  have b: "[''A'' \<mapsto> asset_bundle ''in/A.png'' [''in/anim/A_0001.png'']] ''A'' =
           Some (asset_bundle ''in/A.png'' [''in/anim/A_0001.png''])"
    by simp
  have paths: "bundle_paths (asset_bundle ''in/A.png'' [''in/anim/A_0001.png'']) =
     {''in/A.png'', ''in/anim/A_0001.png''}"
    by (auto simp: bundle_paths_def asset_bundle_def)
  note t = hidden_files_excluded [OF fs plain hidden_crawl b]
  have one: "\<not> hidden (basename ''in/A.png'')"
    using t [of "''in/A.png''"] by (simp add: paths)
  have two: "\<not> hidden (basename ''in/anim/A_0001.png'')"
    using t [of "''in/anim/A_0001.png''"] by (simp add: paths)
  have h: "hidden ''.DS_Store''" "hidden ''.A_0002.png''"
    by (simp_all add: hidden_def)
  from h plain hidden_crawl paths one two show ?thesis
    by (intro conjI)
qed


subsection \<open>Frames and the order of the walk\<close>

lemma animated_file_keeps_absent:
  "animated_file split frame_re path cards file = Inr cards' \<Longrightarrow> cards k = None \<Longrightarrow>
   cards' k = None"
  by (drule animated_file_cases) auto

lemma animated_loop_keeps_absent:
  assumes "for_each (animated_file split frame_re path) xs cards = Inr cards'"
    and "cards k = None"
  shows "cards' k = None"
  by (rule for_each_invariant [OF assms(1), where P = "\<lambda>c. c k = None", OF assms(2)])
     (rule animated_file_keeps_absent)

lemma static_loop_keeps:
  assumes "for_each (static_file path) xs cards = Inr cards'"
    and "cards k = Some b"
  shows "cards' k = Some b"
proof (rule for_each_invariant [OF assms(1), where P = "\<lambda>c. c k = Some b", OF assms(2)])
  fix s x s'
  assume "s k = Some b" "static_file path s x = Inr s'"
  with static_file_cases [of path s x] show "s' k = Some b"
    by auto
qed

text \<open>The loop over one animation folder appends the frames of a key in listing order.\<close>

lemma animated_loop_frames:
  assumes "for_each (animated_file split frame_re path) xs cards = Inr cards'"
    and "cards k = Some b" and "animated b = Some frames"
  shows "\<exists>b'. cards' k = Some b' \<and> static b' = static b \<and>
           animated b' =
             Some (frames @ map (join path)
                (filter (\<lambda>file. \<not> hidden file \<and> frame_key split frame_re file = Inr k) xs))"
  using assms
proof (induction xs arbitrary: cards b frames)
  case Nil
  then show ?case by simp
next
  case (Cons x xs)
  let ?mine = "\<lambda>file. \<not> hidden file \<and> frame_key split frame_re file = Inr k"
  from Cons.prems(1) obtain mid
    where mid: "animated_file split frame_re path cards x = Inr mid"
      "for_each (animated_file split frame_re path) xs mid = Inr cards'"
    by (auto split: sum.splits)
  from animated_file_cases [OF mid(1)]
  consider (skip) "mid = cards"
      "hidden x \<or> (\<exists>k'. frame_key split frame_re x = Inr k' \<and> cards k' = None)"
    | (add) k' c fr where "\<not> hidden x" "frame_key split frame_re x = Inr k'"
      "cards k' = Some c" "animated c = Some fr"
      "mid = cards(k' \<mapsto> c\<lparr>animated := Some (fr @ [join path x])\<rparr>)"
    by blast
  then show ?case
  proof cases
    case skip
    from skip(2) Cons.prems(2) have "\<not> ?mine x" by auto
    then have "filter ?mine (x # xs) = filter ?mine xs" by simp
    with Cons.IH [OF mid(2) [unfolded skip(1)] Cons.prems(2,3)] show ?thesis
      by simp
  next
    case add
    show ?thesis
    proof (cases "k' = k")
      case True
      with add(3,4) Cons.prems(2,3) have same: "c = b" "fr = frames" by simp_all
      let ?b1 = "b\<lparr>animated := Some (frames @ [join path x])\<rparr>"
      from add(5) True same have m: "mid k = Some ?b1" by simp
      have a1: "animated ?b1 = Some (frames @ [join path x])" by simp
      from add(1,2) True have "filter ?mine (x # xs) = x # filter ?mine xs" by simp
      with Cons.IH [OF mid(2) m a1] show ?thesis by simp
    next
      case False
      with add(5) Cons.prems(2) have m: "mid k = Some b" by simp
      from add(2) False have "\<not> ?mine x" by simp
      then have "filter ?mine (x # xs) = filter ?mine xs" by simp
      with Cons.IH [OF mid(2) m Cons.prems(3)] show ?thesis by simp
    qed
  qed
qed

lemma visit_frames:
  assumes "visit split frame_re anim_folder cards (path, subdir, nondirs) = Inr cards'"
    and "cards k = Some b" and "animated b = Some frames"
  shows "\<exists>b'. cards' k = Some b' \<and> static b' = static b \<and>
           animated b' =
             Some (frames @ walk_frames split frame_re anim_folder k [(path, subdir, nondirs)])"
proof (cases "basename path = anim_folder")
  case True
  with assms(1)
  have "for_each (animated_file split frame_re path) (sort nondirs) cards = Inr cards'"
    by (simp add: visit_def)
  from animated_loop_frames [OF this assms(2,3)] True show ?thesis
    by (simp add: walk_frames_def folder_frames_def)
next
  case False
  with assms(1) have "for_each (static_file path) (sort nondirs) cards = Inr cards'"
    by (simp add: visit_def)
  from static_loop_keeps [OF this assms(2)] assms(3) False show ?thesis
    by (simp add: walk_frames_def)
qed

lemma walk_frames_Cons:
  "walk_frames split frame_re anim_folder k (entry # entries) =
   walk_frames split frame_re anim_folder k [entry] @
   walk_frames split frame_re anim_folder k entries"
  by (simp add: walk_frames_def)

lemma crawl_frames:
  assumes "for_each (visit split frame_re anim_folder) entries cards = Inr cards'"
    and "cards k = Some b" and "animated b = Some frames"
  shows "\<exists>b'. cards' k = Some b' \<and> static b' = static b \<and>
           animated b' = Some (frames @ walk_frames split frame_re anim_folder k entries)"
  using assms
proof (induction entries arbitrary: cards b frames)
  case Nil
  then show ?case by (simp add: walk_frames_def)
next
  case (Cons entry entries)
  obtain path subdir nondirs where e: "entry = (path, subdir, nondirs)"
    by (cases entry) auto
  from Cons.prems(1) obtain mid
    where mid: "visit split frame_re anim_folder cards entry = Inr mid"
      "for_each (visit split frame_re anim_folder) entries mid = Inr cards'"
    by (auto split: sum.splits)
  from visit_frames [OF mid(1) [unfolded e] Cons.prems(2,3)]
  obtain b1 where b1: "mid k = Some b1" "static b1 = static b"
    "animated b1 = Some (frames @ walk_frames split frame_re anim_folder k [entry])"
    unfolding e by blast
  from Cons.IH [OF mid(2) b1(1,3)] b1(2) show ?case
    by (simp add: walk_frames_Cons [of _ _ _ _ entry entries])
qed

text \<open>
  C3, as the specification states it, fails. The two trees hold the same static file
  \<^verbatim>\<open>enUS/A.png\<close> and the same frames \<^verbatim>\<open>anim/A_0001.png\<close> and \<^verbatim>\<open>anim/A_0002.png\<close>. When the
  walk visits \<^verbatim>\<open>enUS\<close> first the frames are merged into the bundle; when it visits \<^verbatim>\<open>anim\<close>
  first the frames are dropped.
\<close>

theorem crawl_order_counterexample:
  "crawler split_counter static_first_fs ''in'' ''_[0-9]+$'' ''anim'' =
     Inr [''A'' \<mapsto> asset_bundle ''in/enUS/A.png''
                      [''in/anim/A_0001.png'', ''in/anim/A_0002.png'']] \<and>
   crawler split_counter anim_first_fs ''in'' ''_[0-9]+$'' ''anim'' =
     Inr [''A'' \<mapsto> asset_bundle ''in/enUS/A.png'' []]"
  by (simp add: static_first_crawl anim_first_crawl)

text \<open>
  C3, amended. Bundle keys are global across the whole walk. When the walk reaches an
  animation folder, the bundle of a key that exists by then, created from a static file in
  whichever directory visited earlier, receives the visible frames of that key: the bundle
  to the end of the crawl is its static path, unchanged, and its ordered frame list, which
  is the frames it held, then the frames of this folder in the sorted order of the
  listing, then those of the animation folders visited later, folder after folder. For a
  key that has no bundle yet the visit of the animation folder creates none, so its frames
  there are dropped.
\<close>

theorem frames_merge_after_static:
  assumes "fs target_dir = Some t"
    and "os_walk target_dir t = earlier @ (path, subdir, nondirs) # rest"
    and "for_each (visit split frame_re anim_folder) earlier Map.empty = Inr seen"
    and "basename path = anim_folder"
    and "crawler split fs target_dir frame_re anim_folder = Inr cards"
  shows "(seen k = Some b \<longrightarrow>
            (\<exists>frames b'. animated b = Some frames \<and> cards k = Some b' \<and>
               static b' = static b \<and>
               animated b' =
                 Some (frames @ folder_frames split frame_re k path nondirs @
                       walk_frames split frame_re anim_folder k rest))) \<and>
         (file \<in> set nondirs \<and> \<not> hidden file \<and> frame_key split frame_re file = Inr k \<longrightarrow>
            join path file \<in> set (folder_frames split frame_re k path nondirs)) \<and>
         (seen k = None \<longrightarrow>
            (\<exists>mid. visit split frame_re anim_folder seen (path, subdir, nondirs) = Inr mid \<and>
               mid k = None))"
proof -
  from assms(1,2,5)
  have whole: "for_each (visit split frame_re anim_folder)
          (earlier @ (path, subdir, nondirs) # rest) Map.empty = Inr cards"
    by (simp add: crawler_walk)
  with assms(3) have later: "for_each (visit split frame_re anim_folder)
          ((path, subdir, nondirs) # rest) seen = Inr cards"
    by (simp add: for_each_append)
  then obtain mid
    where mid: "visit split frame_re anim_folder seen (path, subdir, nondirs) = Inr mid"
    by (auto split: sum.splits)
  with assms(4)
  have loop: "for_each (animated_file split frame_re path) (sort nondirs) seen = Inr mid"
    by (simp add: visit_def)
  have merged: "\<exists>frames b'. animated b = Some frames \<and> cards k = Some b' \<and>
               static b' = static b \<and>
               animated b' =
                 Some (frames @ folder_frames split frame_re k path nondirs @
                       walk_frames split frame_re anim_folder k rest)"
    if seen: "seen k = Some b"
  proof -
    from walk_sourced [OF assms(3)] seen obtain frames where fr: "animated b = Some frames"
      unfolding sourced_def by blast
    from crawl_frames [OF later seen fr] assms(4)
    obtain b' where "cards k = Some b'" "static b' = static b"
      "animated b' =
         Some (frames @ folder_frames split frame_re k path nondirs @
               walk_frames split frame_re anim_folder k rest)"
      by (auto simp: walk_frames_def)
    with fr show ?thesis by blast
  qed
  have listed: "join path file \<in> set (folder_frames split frame_re k path nondirs)"
    if "file \<in> set nondirs" "\<not> hidden file" "frame_key split frame_re file = Inr k"
    using that by (simp add: folder_frames_def)
  have dropped: "mid k = None" if "seen k = None"
    by (rule animated_loop_keeps_absent [OF loop that])
  from merged listed dropped mid show ?thesis by blast
qed

theorem frames_merge_after_static_witness:
  "os_walk ''in'' static_first_tree =
     [(''in'', [''enUS'', ''anim''], []), (''in/enUS'', [], [''A.png''])] @
     (''in/anim'', [], [''A_0002.png'', ''A_0001.png'']) # [] \<and>
   for_each (visit split_counter ''_[0-9]+$'' ''anim'')
     [(''in'', [''enUS'', ''anim''], []), (''in/enUS'', [], [''A.png''])] Map.empty =
     Inr [''A'' \<mapsto> asset_bundle ''in/enUS/A.png'' []] \<and>
   basename ''in/anim'' = ''anim'' \<and>
   crawler split_counter static_first_fs ''in'' ''_[0-9]+$'' ''anim'' =
     Inr [''A'' \<mapsto> asset_bundle ''in/enUS/A.png''
                      [''in/anim/A_0001.png'', ''in/anim/A_0002.png'']] \<and>
   [] @ folder_frames split_counter ''_[0-9]+$'' ''A'' ''in/anim'' [''A_0002.png'', ''A_0001.png''] @
     walk_frames split_counter ''_[0-9]+$'' ''anim'' ''A'' [] =
     [''in/anim/A_0001.png'', ''in/anim/A_0002.png'']"
proof -
  have fs: "static_first_fs ''in'' = Some static_first_tree"
    by (simp add: static_first_fs_def)
  have base: "basename ''in/anim'' = ''anim''"
    by (simp add: path_eval)
  have seen: "[''A'' \<mapsto> asset_bundle ''in/enUS/A.png'' []] ''A'' =
      Some (asset_bundle ''in/enUS/A.png'' [])"
    by simp
  from frames_merge_after_static
         [where fs = static_first_fs and target_dir = "''in''" and k = "''A''",
          OF fs static_first_walk static_first_seen base static_first_crawl,
          THEN conjunct1, THEN mp, OF seen]
  have "[] @ folder_frames split_counter ''_[0-9]+$'' ''A'' ''in/anim''
               [''A_0002.png'', ''A_0001.png''] @
             walk_frames split_counter ''_[0-9]+$'' ''anim'' ''A'' [] =
        [''in/anim/A_0001.png'', ''in/anim/A_0002.png'']"
    by (auto simp: asset_bundle_def)
  with static_first_walk static_first_seen base static_first_crawl
  show ?thesis
    by (intro conjI)
qed

subsection \<open>The example layout\<close>

lemma sort_pair:
  fixes a b :: string
  assumes "set xs = {a, b}" and "distinct xs" and "a < b"
  shows "sort xs = [a, b]"
proof -
  have "sorted (sort xs)" "distinct (sort xs)" "set (sort xs) = set [a, b]"
    using assms(1,2) by simp_all
  moreover have "sorted [a, b]" "distinct [a, b]"
    using assms(3) by simp_all
  ultimately show ?thesis
    by (metis sorted_distinct_set_unique)
qed

lemma static_names:
  "fst (splitext ''A.png'') = ''A''" "fst (splitext ''B.png'') = ''B''"
  "\<not> hidden ''A.png''" "\<not> hidden ''B.png''"
  "\<not> hidden ''A_0001.png''" "\<not> hidden ''A_0002.png''"
  by (simp_all add: path_eval hidden_def)

lemma name_order: "''A.png'' < ''B.png''" "''A_0001.png'' < ''A_0002.png''"
  by simp_all

text \<open>
  C6. A directory, itself not named like the animation folder, holds exactly the static
  files \<^verbatim>\<open>A.png\<close> and \<^verbatim>\<open>B.png\<close> and the animation subfolder, which holds exactly the
  frames \<^verbatim>\<open>A_0001.png\<close> and \<^verbatim>\<open>A_0002.png\<close>; the listings may come in any order, and the key of
  both frames, the first segment of the name without extension split on the frame pattern,
  is \<^verbatim>\<open>A\<close>. Then the crawl returns exactly two bundles: \<^verbatim>\<open>A\<close> with the path of \<^verbatim>\<open>A.png\<close> and
  the paths of the two frames in ascending order, and \<^verbatim>\<open>B\<close> with the path of \<^verbatim>\<open>B.png\<close> and no
  frames.
\<close>

theorem example_layout:
  assumes "fs target_dir = Some (Dir [(anim_folder, Dir [] frames)] statics)"
    and "set statics = {''A.png'', ''B.png''}" and "distinct statics"
    and "set frames = {''A_0001.png'', ''A_0002.png''}" and "distinct frames"
    and "basename target_dir \<noteq> anim_folder" and "CHR ''/'' \<notin> set anim_folder"
    and "frame_key split frame_re ''A_0001.png'' = Inr ''A''"
    and "frame_key split frame_re ''A_0002.png'' = Inr ''A''"
  shows "crawler split fs target_dir frame_re anim_folder =
         Inr [''A'' \<mapsto> asset_bundle (join target_dir ''A.png'')
                         [join (join target_dir anim_folder) ''A_0001.png'',
                          join (join target_dir anim_folder) ''A_0002.png''],
              ''B'' \<mapsto> asset_bundle (join target_dir ''B.png'') []]"
proof -
  let ?anim = "join target_dir anim_folder"
  let ?a = "asset_bundle (join target_dir ''A.png'') []"
  let ?b = "asset_bundle (join target_dir ''B.png'') []"
  let ?c1 = "[''A'' \<mapsto> ?a]"
  let ?c2 = "?c1(''B'' \<mapsto> ?b)"
  let ?a1 = "?a\<lparr>animated := Some ([] @ [join ?anim ''A_0001.png''])\<rparr>"
  let ?c3 = "?c2(''A'' \<mapsto> ?a1)"
  let ?a2 = "?a1\<lparr>animated := Some ([join ?anim ''A_0001.png''] @ [join ?anim ''A_0002.png''])\<rparr>"
  let ?c4 = "?c3(''A'' \<mapsto> ?a2)"
  have walk: "os_walk target_dir (Dir [(anim_folder, Dir [] frames)] statics) =
      [(target_dir, [anim_folder], statics), (?anim, [], frames)]"
    by simp
  have s1: "sort statics = [''A.png'', ''B.png'']"
    by (rule sort_pair [OF assms(2,3) name_order(1)])
  have s2: "sort frames = [''A_0001.png'', ''A_0002.png'']"
    by (rule sort_pair [OF assms(4,5) name_order(2)])
  have base: "basename ?anim = anim_folder"
    by (rule basename_join [OF assms(7)])
  have v1: "visit split frame_re anim_folder Map.empty (target_dir, [anim_folder], statics) =
      Inr ?c2"
    using assms(6)
    by (simp add: visit_def s1 static_file_def static_names asset_bundle_def)
  have f1: "animated_file split frame_re ?anim ?c2 ''A_0001.png'' = Inr ?c3"
    by (rule animated_file_appended [OF static_names(5) assms(8)])
       (simp_all add: asset_bundle_def)
  have f2: "animated_file split frame_re ?anim ?c3 ''A_0002.png'' = Inr ?c4"
    by (rule animated_file_appended [OF static_names(6) assms(9)])
       (simp_all add: asset_bundle_def)
  have "for_each (animated_file split frame_re ?anim) [''A_0001.png'', ''A_0002.png''] ?c2 =
      Inr ?c4"
    by (simp only: for_each.simps f1 f2 sum.case)
  then have v2: "visit split frame_re anim_folder ?c2 (?anim, [], frames) = Inr ?c4"
    by (simp only: visit_def base s2 prod.case Let_def simp_thms if_False)
  have "crawler split fs target_dir frame_re anim_folder = Inr ?c4"
    by (simp only: crawler_walk [where fs = fs and target_dir = target_dir, OF assms(1)]
          walk for_each.simps v1 v2 sum.case)
  moreover have "?c4 =
      [''A'' \<mapsto> asset_bundle (join target_dir ''A.png'')
                      [join ?anim ''A_0001.png'', join ?anim ''A_0002.png''],
       ''B'' \<mapsto> asset_bundle (join target_dir ''B.png'') []]"
    by (rule ext) (simp add: asset_bundle_def)
  ultimately show ?thesis by simp
qed

theorem example_layout_witness:
  "example_fs ''in'' =
     Some (Dir [(''anim'', Dir [] [''A_0002.png'', ''A_0001.png''])] [''B.png'', ''A.png'']) \<and>
   basename ''in'' \<noteq> ''anim'' \<and>
   frame_key split_counter ''_[0-9]+$'' ''A_0001.png'' = Inr ''A'' \<and>
   frame_key split_counter ''_[0-9]+$'' ''A_0002.png'' = Inr ''A'' \<and>
   crawler split_counter example_fs ''in'' ''_[0-9]+$'' ''anim'' =
     Inr [''A'' \<mapsto> asset_bundle ''in/A.png'' [''in/anim/A_0001.png'', ''in/anim/A_0002.png''],
          ''B'' \<mapsto> asset_bundle ''in/B.png'' []]"
proof -
  have fs: "example_fs ''in'' =
     Some (Dir [(''anim'', Dir [] [''A_0002.png'', ''A_0001.png''])] [''B.png'', ''A.png''])"
    by (simp add: example_fs_def)
  have statics: "set [''B.png'', ''A.png''] = {''A.png'', ''B.png''}" "distinct [''B.png'', ''A.png'']"
    by auto
  have frames: "set [''A_0002.png'', ''A_0001.png''] = {''A_0001.png'', ''A_0002.png''}"
    "distinct [''A_0002.png'', ''A_0001.png'']"
    by auto
  have base: "basename ''in'' \<noteq> ''anim''"
    by (simp add: path_eval)
  have plain: "CHR ''/'' \<notin> set ''anim''"
    by simp
  have joins: "join ''in'' ''A.png'' = ''in/A.png''" "join ''in'' ''B.png'' = ''in/B.png''"
    "join (join ''in'' ''anim'') ''A_0001.png'' = ''in/anim/A_0001.png''"
    "join (join ''in'' ''anim'') ''A_0002.png'' = ''in/anim/A_0002.png''"
    by (simp_all add: join_def)
  from example_layout [where fs = example_fs and target_dir = "''in''",
         OF fs statics frames base plain key_A_0001 key_A_0002]
  have "crawler split_counter example_fs ''in'' ''_[0-9]+$'' ''anim'' =
     Inr [''A'' \<mapsto> asset_bundle ''in/A.png'' [''in/anim/A_0001.png'', ''in/anim/A_0002.png''],
          ''B'' \<mapsto> asset_bundle ''in/B.png'' []]"
    by (simp only: joins)
  with fs base key_A_0001 key_A_0002 show ?thesis
    by (intro conjI)
qed

subsection \<open>The crawl returns\<close>

text \<open>
  The crawl raises only when the regular-expression engine does: if \<^verbatim>\<open>re.split\<close> returns a
  non-empty list for every name it is given, the crawler returns a mapping.
\<close>

lemma crawler_returns:
  assumes "\<And>s. \<exists>h r. split frame_re s = Inr (h # r)"
  shows "\<exists>cards. crawler split fs target_dir frame_re anim_folder = Inr cards"
proof (cases "fs target_dir")
  case None
  then show ?thesis by (simp add: crawler_def isdir_def)
next
  case (Some t)
  let ?P = "\<lambda>cards :: cards. \<forall>k b. cards k = Some b \<longrightarrow> animated b \<noteq> None"
  have static_step: "\<exists>s'. static_file path s x = Inr s' \<and> ?P s'" if "?P s" for path s x
    using static_file_cases [of path s x] that by (auto simp: asset_bundle_def)
  have anim_step: "\<exists>s'. animated_file split frame_re path s x = Inr s' \<and> ?P s'"
    if "?P s" for path s x
  proof -
    from assms obtain h r where "split frame_re (fst (splitext x)) = Inr (h # r)"
      by blast
    then have key: "frame_key split frame_re x = Inr h"
      by (simp add: frame_key_def)
    show ?thesis
    proof (cases "hidden x")
      case True
      with that show ?thesis by (simp add: animated_file_def)
    next
      case False
      show ?thesis
      proof (cases "s h")
        case None
        from animated_file_dropped [where cards = s, OF False key None] that show ?thesis by simp
      next
        case (Some c)
        with that obtain frames where fr: "animated c = Some frames" by blast
        from animated_file_appended [where cards = s, OF False key Some fr] that
        show ?thesis by simp
      qed
    qed
  qed
  have visit_step: "\<exists>s'. visit split frame_re anim_folder s entry = Inr s' \<and> ?P s'"
    if "?P s" for s entry
  proof (cases entry)
    case (fields path subdir nondirs)
    show ?thesis
    proof (cases "basename path = anim_folder")
      case True
      with fields
        for_each_total [where P = ?P and body = "animated_file split frame_re path"
          and xs = "sort nondirs" and s = s, OF that]
        anim_step
      show ?thesis by (simp add: visit_def)
    next
      case False
      with fields
        for_each_total [where P = ?P and body = "static_file path"
          and xs = "sort nondirs" and s = s, OF that]
        static_step
      show ?thesis by (simp add: visit_def)
    qed
  qed
  have "?P Map.empty" by simp
  from for_each_total [where P = ?P and body = "visit split frame_re anim_folder"
      and xs = "os_walk target_dir t", OF this] visit_step
  show ?thesis
    by (simp add: crawler_walk [where fs = fs and target_dir = target_dir, OF Some]) blast
qed

end
